theory Spec2Isabelle
  imports Main "HOL-Library.Sublist"
begin

section \<open>Data model of the calendar event view-model\<close>

text \<open>
  The embedding follows \<^verbatim>\<open>CalendarEventViewModel\<close> (the class of
  \<^verbatim>\<open>src/unnamed/part_001\<close>, lines 68 to 600) and the distributor interface of
  \<^verbatim>\<open>src/unnamed/part_000\<close>. Entities are records, the string enums are datatypes,
  a \<^verbatim>\<open>Date\<close> is its millisecond timestamp, and a JavaScript \<^verbatim>\<open>number\<close> that the
  code tests with \<^verbatim>\<open>isNaN\<close> is either \<open>NaN\<close> or an integer.
\<close>

type_synonym Id = string
type_synonym date = int

datatype number = NaN | Num int

datatype CalendarAttendeeStatus = NEEDS_ACTION | ACCEPTED | DECLINED | TENTATIVE

datatype EndType = Never | Count | UntilDate

datatype RepeatPeriod = DAILY | WEEKLY | MONTHLY | ANNUALLY

datatype ShareCapability = Read | Write | Invite

datatype EventType = OWN | SHARED_RO | SHARED_RW | INVITE

datatype error = NotFoundError | TypeError | NullError | OtherError string

record EncryptedMailAddress =
  name :: string
  address :: string

record MailAddress =
  ma_name :: string
  ma_address :: string

record CalendarEventAttendee =
  mail_address :: EncryptedMailAddress
  status :: CalendarAttendeeStatus

record RepeatRule =
  rr_frequency :: RepeatPeriod
  rr_interval :: string
  rr_endType :: EndType
  rr_endValue :: "string option"
  rr_timeZone :: string

record AlarmInfo =
  alarmIdentifier :: string
  trigger :: string

record CalendarEvent =
  ev_id :: "(Id \<times> Id) option"
  ev_ownerGroup :: "Id option"
  ev_summary :: string
  ev_description :: string
  ev_location :: string
  ev_startTime :: date
  ev_endTime :: date
  ev_uid :: "string option"
  ev_repeatRule :: "RepeatRule option"
  ev_attendees :: "CalendarEventAttendee list"
  ev_organizer :: "string option"
  ev_sequence :: string
  ev_isCopy :: bool

record CalendarInfo =
  cal_group :: Id
  cal_groupRoot :: Id
  shared :: bool

text \<open>The view-model's \<^verbatim>\<open>repeat\<close> field (line 77).\<close>

record RepeatSettings =
  frequency :: RepeatPeriod
  interval :: number
  endType :: EndType
  endValue :: number

text \<open>
  The fields of the class (lines 69 to 95). \<^verbatim>\<open>note\<close> is \<open>note_text\<close>; the streams
  \<^verbatim>\<open>summary\<close>, \<^verbatim>\<open>selectedCalendar\<close>, \<^verbatim>\<open>allDay\<close> and \<^verbatim>\<open>location\<close> are their
  current values. \<^verbatim>\<open>selectedCalendar\<close> is \<open>None\<close> when the stream holds
  \<^verbatim>\<open>undefined\<close> (an empty calendar map). The object \<open>existingEvent\<close> is shared with
  the caller: the field holds its current contents.
\<close>

record CalendarEventViewModel =
  summary :: string
  calendars :: "CalendarInfo list"
  selectedCalendar :: "CalendarInfo option"
  startDate :: date
  endDate :: date
  startTime :: string
  endTime :: string
  allDay :: bool
  repeat :: "RepeatSettings option"
  attendees :: "CalendarEventAttendee list"
  organizer :: "string option"
  possibleOrganizers :: "string list"
  location :: string
  note_text :: string
  amPmFormat :: bool
  existingEvent :: "CalendarEvent option"
  readOnly :: bool
  zone :: string
  alarms :: "AlarmInfo list"
  going :: CalendarAttendeeStatus
  user :: Id
  eventType :: EventType
  mailAddresses :: "string list"

text \<open>
  The values the constructor derives from the existing event or from the reference
  instant with the zone utilities of \<^verbatim>\<open>CalendarUtils\<close> (lines 177 to 227); those
  utilities are not part of the sources, so the constructor takes their results.
\<close>

record FormFields =
  f_summary :: string
  f_startDate :: date
  f_endDate :: date
  f_startTime :: string
  f_endTime :: string
  f_allDay :: bool
  f_repeat :: "RepeatSettings option"
  f_location :: string
  f_note :: string

subsection \<open>Collaborators\<close>

text \<open>
  The calls the view-model makes on the calendar store (\<^verbatim>\<open>CalendarModel\<close>) and on the
  update distributor (\<^verbatim>\<open>CalendarUpdateDistributor\<close>, part_000 lines 16 to 24), with
  their arguments. A run of the view-model is observed as the list of calls it
  issued, in the order it issued them.
\<close>

datatype call =
    CreateEvent CalendarEvent "AlarmInfo list" string Id
  | UpdateEvent CalendarEvent "AlarmInfo list" string Id CalendarEvent
  | DeleteEvent CalendarEvent
  | SendInvite CalendarEvent "EncryptedMailAddress list"
  | SendUpdate CalendarEvent "EncryptedMailAddress list"
  | SendCancellation CalendarEvent "EncryptedMailAddress list"
  | SendResponse CalendarEvent MailAddress CalendarAttendeeStatus

text \<open>
  How a promise settles, or a synchronous throw out of the method.
\<close>

datatype 'a completion = Resolved 'a | Rejected error | Thrown error

text \<open>
  What the view-model imports from files that are not part of the sources
  (\<^verbatim>\<open>CalendarUtils\<close>, luxon, the entity constructors), and how each collaborator call
  settles: \<open>settles c = None\<close> when the promise of call \<open>c\<close> resolves, \<open>Some e\<close> when
  it rejects with \<open>e\<close>. \<open>setHourMinute d z h m\<close> stands for
  \<^verbatim>\<open>DateTime.fromJSDate(d, {zone: z}).set({hour: h, minute: m}).toJSDate()\<close>.
\<close>

record externals =
  hasCapabilityOnGroup :: "Id \<Rightarrow> Id \<Rightarrow> ShareCapability \<Rightarrow> bool"
  parseTime :: "string \<Rightarrow> (nat \<times> nat) option"
  getAllDayDateUTCFromZone :: "date \<Rightarrow> string \<Rightarrow> date"
  getStartOfNextDayWithZone :: "date \<Rightarrow> string \<Rightarrow> date"
  setHourMinute :: "date \<Rightarrow> string \<Rightarrow> nat \<Rightarrow> nat \<Rightarrow> date"
  getEventStart :: "CalendarEvent \<Rightarrow> string \<Rightarrow> date"
  generateUid :: "CalendarEvent \<Rightarrow> date \<Rightarrow> string"
  filterInt :: "string \<Rightarrow> number"
  createRepeatRuleWithValues :: "RepeatPeriod \<Rightarrow> number \<Rightarrow> RepeatRule"
  createCalendarEvent :: CalendarEvent
  settles :: "call \<Rightarrow> error option"

subsection \<open>JavaScript values\<close>

text \<open>\<^verbatim>\<open>String(n)\<close> on a number: decimal digits, a minus sign, or \<^verbatim>\<open>NaN\<close>.\<close>

function digits :: "nat \<Rightarrow> string" where
  "digits n = (if n < 10 then [char_of (48 + n)] else digits (n div 10) @ [char_of (48 + n mod 10)])"
  by pat_completeness auto
termination
  by (relation "measure id") auto

definition String :: "number \<Rightarrow> string" where
  "String n = (case n of NaN \<Rightarrow> ''NaN''
     | Num i \<Rightarrow> if i < 0 then CHR ''-'' # digits (nat (- i)) else digits (nat i))"

definition plus1 :: "number \<Rightarrow> number" where
  "plus1 n = (case n of NaN \<Rightarrow> NaN | Num i \<Rightarrow> Num (i + 1))"

definition isNaN :: "number \<Rightarrow> bool" where
  "isNaN n = (n = NaN)"

text \<open>\<^verbatim>\<open>n < 1\<close>: false when \<open>n\<close> is \<open>NaN\<close>.\<close>

definition lessThan1 :: "number \<Rightarrow> bool" where
  "lessThan1 n = (case n of NaN \<Rightarrow> False | Num i \<Rightarrow> i < 1)"

text \<open>Truthiness of a nullable string: \<^verbatim>\<open>null\<close> and the empty string are falsy.\<close>

definition truthy :: "string option \<Rightarrow> bool" where
  "truthy s = (case s of None \<Rightarrow> False | Some v \<Rightarrow> v \<noteq> [])"

text \<open>\<^verbatim>\<open>assertNotNull\<close> throws on \<^verbatim>\<open>null\<close>.\<close>

definition assertNotNull :: "'a option \<Rightarrow> error + 'a" where
  "assertNotNull x = (case x of None \<Rightarrow> Inl NullError | Some v \<Rightarrow> Inr v)"

text \<open>
  Assigning to a field of the object that \<^verbatim>\<open>Array.prototype.find\<close> returned: the
  first element that satisfies the predicate is updated, in place.
\<close>

fun updateFirst :: "('a \<Rightarrow> bool) \<Rightarrow> ('a \<Rightarrow> 'a) \<Rightarrow> 'a list \<Rightarrow> 'a list" where
  "updateFirst P f [] = []"
| "updateFirst P f (x # xs) = (if P x then f x # xs else x # updateFirst P f xs)"

text \<open>\<^verbatim>\<open>findAndRemove\<close>: the first element that satisfies the predicate is removed.\<close>

fun findAndRemove :: "('a \<Rightarrow> bool) \<Rightarrow> 'a list \<Rightarrow> 'a list" where
  "findAndRemove P [] = []"
| "findAndRemove P (x # xs) = (if P x then xs else x # findAndRemove P xs)"

section \<open>Permissions\<close>

text \<open>
  The calendar of the event, as line 154 finds it:
  \<^verbatim>\<open>existingEvent._ownerGroup && calendars.get(existingEvent._ownerGroup)\<close>.
  The calendar map is an insertion-ordered \<^verbatim>\<open>Map\<close>, here an association list.
  An event whose owner group is not set (\<^verbatim>\<open>null\<close>, or the empty id, both falsy)
  has no owning calendar.
\<close>

definition calendarInfoForEvent :: "(Id \<times> CalendarInfo) list \<Rightarrow> CalendarEvent \<Rightarrow> CalendarInfo option" where
  "calendarInfoForEvent cals e =
     (case ev_ownerGroup e of
        None \<Rightarrow> None
      | Some g \<Rightarrow> if g = [] then None else map_of cals g)"

text \<open>The classification \<^verbatim>\<open>_eventType\<close> (lines 150 to 167).\<close>

definition classifyEvent ::
  "externals \<Rightarrow> Id \<Rightarrow> (Id \<times> CalendarInfo) list \<Rightarrow> CalendarEvent option \<Rightarrow> EventType" where
  "classifyEvent ext usr cals existing =
     (case existing of
        None \<Rightarrow> OWN
      | Some e \<Rightarrow>
          (case calendarInfoForEvent cals e of
             Some info \<Rightarrow>
               if shared info
               then (if hasCapabilityOnGroup ext usr (cal_group info) Write then SHARED_RW else SHARED_RO)
               else (if ev_isCopy e then INVITE else OWN)
           | None \<Rightarrow> INVITE))"

text \<open>\<^verbatim>\<open>readOnly\<close> (lines 169 to 171), with the short-circuit order of the source.\<close>

definition computeReadOnly :: "EventType \<Rightarrow> CalendarEvent option \<Rightarrow> error + bool" where
  "computeReadOnly t existing =
     (if t \<noteq> OWN \<and> t \<noteq> INVITE
      then (if t \<noteq> SHARED_RW then Inr True
            else (case assertNotNull existing of
                    Inl err \<Rightarrow> Inl err
                  | Inr e \<Rightarrow> Inr (length (ev_attendees e) \<noteq> 0)))
      else Inr False)"

definition isOwnAddress :: "string list \<Rightarrow> CalendarEventAttendee \<Rightarrow> bool" where
  "isOwnAddress own a = (address (mail_address a) \<in> set own)"

text \<open>\<^verbatim>\<open>_findOwnAttendee\<close> (lines 230 to 232).\<close>

definition findOwnAttendee :: "CalendarEventViewModel \<Rightarrow> CalendarEventAttendee option" where
  "findOwnAttendee vm = find (isOwnAddress (mailAddresses vm)) (attendees vm)"

text \<open>\<^verbatim>\<open>_viewingOwnEvent\<close> (lines 390 to 401).\<close>

definition viewingOwnEvent :: "CalendarEventViewModel \<Rightarrow> bool" where
  "viewingOwnEvent vm =
     (case existingEvent vm of
        None \<Rightarrow> True
      | Some e \<Rightarrow>
          \<not> ev_isCopy e \<and>
          (case ev_organizer e of None \<Rightarrow> True | Some org \<Rightarrow> org \<in> set (mailAddresses vm)))"

text \<open>Lines 364 to 388.\<close>

definition notCopy :: "CalendarEventViewModel \<Rightarrow> bool" where
  "notCopy vm = (case existingEvent vm of None \<Rightarrow> True | Some e \<Rightarrow> \<not> ev_isCopy e)"

definition canModifyGuests :: "CalendarEventViewModel \<Rightarrow> bool" where
  "canModifyGuests vm = ((eventType vm = OWN \<or> eventType vm = INVITE) \<and> notCopy vm)"

definition canModifyOwnAttendance :: "CalendarEventViewModel \<Rightarrow> bool" where
  "canModifyOwnAttendance vm =
     ((eventType vm = OWN \<or> eventType vm = INVITE) \<and>
      (viewingOwnEvent vm \<or> findOwnAttendee vm \<noteq> None))"

definition canModifyOrganizer :: "CalendarEventViewModel \<Rightarrow> bool" where
  "canModifyOrganizer vm =
     ((eventType vm = OWN \<or> eventType vm = INVITE) \<and> notCopy vm \<and> length (attendees vm) = 0)"

definition canModifyAlarms :: "CalendarEventViewModel \<Rightarrow> bool" where
  "canModifyAlarms vm = (eventType vm = OWN \<or> eventType vm = INVITE \<or> eventType vm = SHARED_RW)"

section \<open>Construction\<close>

text \<open>
  The constructor (lines 97 to 228). \<open>defaultSender\<close> and \<open>own\<close> are the results of
  \<^verbatim>\<open>getDefaultSenderFromUser\<close> and \<^verbatim>\<open>getEnabledMailAddressesWithUser\<close>, \<open>ampm\<close>
  the time format of the user settings. The attendees of the existing event are
  cloned; the alarms start empty (they are loaded asynchronously afterwards).
  The result is \<open>Inl\<close> when \<^verbatim>\<open>assertNotNull\<close> throws.
\<close>

definition newViewModel ::
  "externals \<Rightarrow> Id \<Rightarrow> string \<Rightarrow> string list \<Rightarrow> bool \<Rightarrow> string \<Rightarrow> (Id \<times> CalendarInfo) list \<Rightarrow>
     CalendarEvent option \<Rightarrow> FormFields \<Rightarrow> error + CalendarEventViewModel" where
  "newViewModel ext usr defaultSender own ampm z cals existing form =
     (let infos = map snd cals;
          existingOrganizer = (case existing of None \<Rightarrow> None | Some e \<Rightarrow> ev_organizer e);
          t = classifyEvent ext usr cals existing
      in case computeReadOnly t existing of
           Inl err \<Rightarrow> Inl err
         | Inr ro \<Rightarrow>
             (let vm0 = \<lparr> summary = f_summary form,
                         calendars = infos,
                         selectedCalendar =
                           (case (case existing of None \<Rightarrow> None
                                  | Some e \<Rightarrow> (case ev_ownerGroup e of None \<Rightarrow> None | Some g \<Rightarrow> map_of cals g)) of
                              Some info \<Rightarrow> Some info
                            | None \<Rightarrow> (case infos of [] \<Rightarrow> None | info # _ \<Rightarrow> Some info)),
                         startDate = f_startDate form,
                         endDate = f_endDate form,
                         startTime = f_startTime form,
                         endTime = f_endTime form,
                         allDay = f_allDay form,
                         repeat = f_repeat form,
                         attendees = (case existing of None \<Rightarrow> [] | Some e \<Rightarrow> ev_attendees e),
                         organizer = (if truthy existingOrganizer then existingOrganizer else Some defaultSender),
                         possibleOrganizers = own,
                         location = f_location form,
                         note_text = f_note form,
                         amPmFormat = ampm,
                         existingEvent = existing,
                         readOnly = ro,
                         zone = z,
                         alarms = [],
                         going = NEEDS_ACTION,
                         user = usr,
                         eventType = t,
                         mailAddresses = own \<rparr>;
                  vm1 = vm0 \<lparr> going := (case findOwnAttendee vm0 of Some a \<Rightarrow> status a | None \<Rightarrow> NEEDS_ACTION) \<rparr>
              in Inr (vm1 \<lparr> possibleOrganizers :=
                          (case existingOrganizer of
                             Some org \<Rightarrow> if org \<noteq> [] \<and> \<not> canModifyOrganizer vm1 then [org] else own
                           | None \<Rightarrow> own) \<rparr>)))"

section \<open>Editing the attendees\<close>

text \<open>\<^verbatim>\<open>addAttendee\<close> (lines 245 to 254) and \<^verbatim>\<open>removeAttendee\<close> (lines 369 to 371).\<close>

definition addAttendee :: "CalendarEventViewModel \<Rightarrow> string \<Rightarrow> CalendarEventViewModel" where
  "addAttendee vm mailAddress =
     (case find (\<lambda>a. address (mail_address a) = mailAddress) (attendees vm) of
        Some _ \<Rightarrow> vm
      | None \<Rightarrow>
          vm \<lparr> attendees := attendees vm @
                 [\<lparr> mail_address = \<lparr> name = [], address = mailAddress \<rparr>, status = NEEDS_ACTION \<rparr>] \<rparr>)"

definition removeAttendee :: "CalendarEventViewModel \<Rightarrow> string \<Rightarrow> CalendarEventViewModel" where
  "removeAttendee vm a =
     vm \<lparr> attendees := findAndRemove (\<lambda>x. address (mail_address x) = a) (attendees vm) \<rparr>"

text \<open>
  \<^verbatim>\<open>selectGoing\<close> (lines 580 to 595). \<^verbatim>\<open>firstThrow\<close> throws on an empty array,
  after \<^verbatim>\<open>going\<close> was assigned: the result is the error, if any, and the state.
\<close>

definition selectGoing ::
  "CalendarEventViewModel \<Rightarrow> CalendarAttendeeStatus \<Rightarrow> error option \<times> CalendarEventViewModel" where
  "selectGoing vm g =
     (if canModifyOwnAttendance vm
      then (case findOwnAttendee vm of
              Some _ \<Rightarrow>
                (None, vm \<lparr> going := g,
                           attendees := updateFirst (isOwnAddress (mailAddresses vm))
                                          (\<lambda>a. a \<lparr> status := g \<rparr>) (attendees vm) \<rparr>)
            | None \<Rightarrow>
                (case mailAddresses vm of
                   [] \<Rightarrow> (Some (OtherError ''Array is empty''), vm \<lparr> going := g \<rparr>)
                 | m # _ \<Rightarrow>
                     (None, vm \<lparr> going := g,
                                attendees := \<lparr> mail_address = \<lparr> name = [], address = m \<rparr>, status = g \<rparr>
                                             # attendees vm \<rparr>)))
      else (None, vm))"

section \<open>Promises and collaborator calls\<close>

text \<open>
  A run is how the promise settled together with the calls issued on the way.
  \<open>invoke\<close> issues one call; \<open>andThen p q\<close> is \<^verbatim>\<open>p.then(() => q)\<close>: \<open>q\<close> runs only
  when \<open>p\<close> resolved, and a rejection of \<open>p\<close> passes through. \<open>notAwaited\<close> is a call
  whose promise the code drops: the call is issued, its outcome is not looked at.
\<close>

type_synonym run = "unit completion \<times> call list"

definition invoke :: "externals \<Rightarrow> call \<Rightarrow> run" where
  "invoke ext c = (case settles ext c of None \<Rightarrow> (Resolved (), [c]) | Some err \<Rightarrow> (Rejected err, [c]))"

definition resolved :: run where
  "resolved = (Resolved (), [])"

definition andThen :: "run \<Rightarrow> run \<Rightarrow> run" where
  "andThen p q = (case fst p of Resolved _ \<Rightarrow> (fst q, snd p @ snd q) | _ \<Rightarrow> p)"

definition notAwaited :: "run \<Rightarrow> run" where
  "notAwaited p = (Resolved (), snd p)"

text \<open>\<^verbatim>\<open>_distributionAddresses\<close> (lines 597 to 599).\<close>

definition distributionAddresses :: "CalendarEventAttendee list \<Rightarrow> EncryptedMailAddress list" where
  "distributionAddresses guests = map mail_address guests"

section \<open>Deleting\<close>

text \<open>
  \<^verbatim>\<open>deleteEvent\<close> (lines 406 to 416). The filtered \<^verbatim>\<open>catch(NotFoundError, noOp)\<close>
  closes the whole chain. The promise resolves with \<^verbatim>\<open>true\<close> (\<open>Some True\<close>) when
  there is no event and with \<^verbatim>\<open>undefined\<close> (\<open>None\<close>) otherwise.
\<close>

definition deleteEvent :: "externals \<Rightarrow> CalendarEventViewModel \<Rightarrow> bool option completion \<times> call list" where
  "deleteEvent ext vm =
     (case existingEvent vm of
        Some event \<Rightarrow>
          (let awaitCancellation =
                 (if eventType vm = OWN \<and> length (ev_attendees event) \<noteq> 0
                  then invoke ext (SendCancellation event (map mail_address (ev_attendees event)))
                  else resolved);
               chain = andThen awaitCancellation (invoke ext (DeleteEvent event))
           in (case fst chain of
                 Resolved _ \<Rightarrow> (Resolved None, snd chain)
               | Rejected err \<Rightarrow> (if err = NotFoundError then Resolved None else Rejected err, snd chain)
               | Thrown err \<Rightarrow> (Thrown err, snd chain)))
      | None \<Rightarrow> (Resolved (Some True), []))"

section \<open>Saving\<close>

text \<open>
  The variables the \<^verbatim>\<open>askForUpdates\<close> closure of lines 550 to 563 captures.
\<close>

record PendingSave =
  ps_existingEvent :: "CalendarEvent option"
  ps_newEvent :: CalendarEvent
  ps_newAlarms :: "AlarmInfo list"
  ps_zone :: string
  ps_groupRoot :: Id
  ps_existingAttendees :: "CalendarEventAttendee list"
  ps_newAttendees :: "CalendarEventAttendee list"
  ps_removedAttendees :: "CalendarEventAttendee list"

text \<open>\<^verbatim>\<open>EventCreateResult\<close> (lines 56 to 58); \<open>Ok None\<close> is \<^verbatim>\<open>askForUpdates: null\<close>.\<close>

datatype EventCreateResult = Ok "PendingSave option" | Error string

text \<open>
  The start and end instants (lines 424 to 445); \<open>None\<close> when a time string does not
  parse.
\<close>

definition startEndInstants :: "externals \<Rightarrow> CalendarEventViewModel \<Rightarrow> (date \<times> date) option" where
  "startEndInstants ext vm =
     (if allDay vm
      then Some (getAllDayDateUTCFromZone ext (startDate vm) (zone vm),
                 getAllDayDateUTCFromZone ext (getStartOfNextDayWithZone ext (endDate vm) (zone vm)) (zone vm))
      else (case (parseTime ext (startTime vm), parseTime ext (endTime vm)) of
              (Some (sh, sm), Some (eh, em)) \<Rightarrow>
                Some (setHourMinute ext (startDate vm) (zone vm) sh sm,
                      setHourMinute ext (endDate vm) (zone vm) eh em)
            | _ \<Rightarrow> None))"

text \<open>
  The repeat rule (lines 457 to 488), written into the event assembled so far; \<open>Inl\<close>
  is the key of the error result. An end value \<open>NaN\<close> under \<open>UntilDate\<close> is an invalid
  date, which stays invalid through the zone utilities: every comparison with it is
  false and its timestamp prints as \<^verbatim>\<open>NaN\<close>.
\<close>

definition assembleRepeatRule ::
  "externals \<Rightarrow> CalendarEventViewModel \<Rightarrow> CalendarEvent \<Rightarrow> string + CalendarEvent" where
  "assembleRepeatRule ext vm newEvent =
     (case repeat vm of
        None \<Rightarrow> Inr (newEvent \<lparr> ev_repeatRule := None \<rparr>)
      | Some r \<Rightarrow>
          (let interval' = (if interval r = NaN \<or> interval r = Num 0 then Num 1 else interval r);
               repeatRule = (createRepeatRuleWithValues ext (frequency r) interval') \<lparr> rr_endType := endType r \<rparr>
           in if endType r = Count
              then (if isNaN (endValue r) \<or> lessThan1 (endValue r)
                    then Inr (newEvent \<lparr> ev_repeatRule := Some (repeatRule \<lparr> rr_endType := Never \<rparr>) \<rparr>)
                    else Inr (newEvent \<lparr> ev_repeatRule :=
                                Some (repeatRule \<lparr> rr_endValue := Some (String (endValue r)) \<rparr>) \<rparr>))
              else if endType r = UntilDate
              then (case endValue r of
                      NaN \<Rightarrow> Inr (newEvent \<lparr> ev_repeatRule :=
                                Some (repeatRule \<lparr> rr_endValue := Some (String NaN) \<rparr>) \<rparr>)
                    | Num t \<Rightarrow>
                        (let repeatEndDate = getStartOfNextDayWithZone ext t (zone vm)
                         in if repeatEndDate < getEventStart ext (newEvent \<lparr> ev_repeatRule := Some repeatRule \<rparr>) (zone vm)
                            then Inl ''startAfterEnd_label''
                            else Inr (newEvent \<lparr> ev_repeatRule :=
                                   Some (repeatRule \<lparr> rr_endValue :=
                                     Some (String (Num (if allDay vm
                                                        then getAllDayDateUTCFromZone ext repeatEndDate (zone vm)
                                                        else repeatEndDate))) \<rparr>) \<rparr>)))
              else Inr (newEvent \<lparr> ev_repeatRule := Some repeatRule \<rparr>)))"

text \<open>
  The loop of lines 505 to 514 over the current attendees: the accumulator is
  \<open>(existingAttendees, newAttendees)\<close>, and \<^verbatim>\<open>push\<close> appends.
\<close>

definition sameAddress :: "CalendarEventAttendee \<Rightarrow> CalendarEventAttendee \<Rightarrow> bool" where
  "sameAddress a b = (address (mail_address a) = address (mail_address b))"

fun diffCurrent ::
  "string list \<Rightarrow> CalendarEventAttendee list \<Rightarrow> CalendarEventAttendee list \<Rightarrow>
     CalendarEventAttendee list \<times> CalendarEventAttendee list \<Rightarrow>
     CalendarEventAttendee list \<times> CalendarEventAttendee list" where
  "diffCurrent own prior [] acc = acc"
| "diffCurrent own prior (a # rest) (existingAttendees, newAttendees) =
     (if isOwnAddress own a then diffCurrent own prior rest (existingAttendees, newAttendees)
      else if find (\<lambda>ea. sameAddress ea a) prior \<noteq> None
      then diffCurrent own prior rest (existingAttendees @ [a], newAttendees)
      else diffCurrent own prior rest (existingAttendees, newAttendees @ [a]))"

text \<open>
  The attendee diff of the organizer (lines 503 to 522): the result is
  \<open>(newAttendees, existingAttendees, removedAttendees)\<close>, that is new, retained and
  removed.
\<close>

definition attendeeDiff ::
  "string list \<Rightarrow> CalendarEvent option \<Rightarrow> CalendarEventAttendee list \<Rightarrow>
     CalendarEventAttendee list \<times> CalendarEventAttendee list \<times> CalendarEventAttendee list" where
  "attendeeDiff own existing current =
     (case existing of
        Some e \<Rightarrow>
          (case diffCurrent own (ev_attendees e) current ([], []) of
             (existingAttendees, newAttendees) \<Rightarrow>
               (newAttendees, existingAttendees,
                filter (\<lambda>ea. \<not> isOwnAddress own ea \<and> find (\<lambda>a. sameAddress ea a) current = None)
                  (ev_attendees e)))
      | None \<Rightarrow> (filter (\<lambda>a. \<not> isOwnAddress own a) current, [], []))"

text \<open>
  The response of a guest (lines 524 to 535): the own attendee is looked up on the
  existing event; its \<^verbatim>\<open>status\<close> is assigned on that object, and
  \<^verbatim>\<open>sendResponse\<close> is called without awaiting it. The result is the existing event
  afterwards and the calls issued.
\<close>

definition ownResponse ::
  "CalendarEventViewModel \<Rightarrow> CalendarEvent \<Rightarrow> CalendarEvent option \<times> call list" where
  "ownResponse vm newEvent =
     (case existingEvent vm of
        None \<Rightarrow> (None, [])
      | Some e \<Rightarrow>
          (case find (isOwnAddress (mailAddresses vm)) (ev_attendees e) of
             Some ownAttendee \<Rightarrow>
               if going vm \<noteq> NEEDS_ACTION \<and> status ownAttendee \<noteq> going vm
               then (Some (e \<lparr> ev_attendees := updateFirst (isOwnAddress (mailAddresses vm))
                                                 (\<lambda>a. a \<lparr> status := going vm \<rparr>) (ev_attendees e) \<rparr>),
                     [SendResponse newEvent
                        \<lparr> ma_name = name (mail_address ownAttendee),
                          ma_address = address (mail_address ownAttendee) \<rparr>
                        (going vm)])
               else (Some e, [])
           | None \<Rightarrow> (Some e, [])))"

text \<open>\<^verbatim>\<open>doCreateEvent\<close> (lines 538 to 544): the call it makes.\<close>

definition doCreateEvent ::
  "CalendarEvent option \<Rightarrow> CalendarEvent \<Rightarrow> AlarmInfo list \<Rightarrow> string \<Rightarrow> Id \<Rightarrow> call" where
  "doCreateEvent existing newEvent newAlarms z groupRoot =
     (case existing of
        None \<Rightarrow> CreateEvent newEvent newAlarms z groupRoot
      | Some e \<Rightarrow> UpdateEvent newEvent newAlarms z groupRoot e)"

text \<open>
  The \<^verbatim>\<open>askForUpdates\<close> callback (lines 550 to 563). The last \<^verbatim>\<open>then\<close> has a block
  body without \<^verbatim>\<open>return\<close>: the cancellation is sent and not awaited.
\<close>

definition askForUpdates :: "externals \<Rightarrow> PendingSave \<Rightarrow> bool \<Rightarrow> run" where
  "askForUpdates ext p sendOutUpdate =
     andThen
       (andThen
          (andThen
             (invoke ext (doCreateEvent (ps_existingEvent p) (ps_newEvent p) (ps_newAlarms p)
                            (ps_zone p) (ps_groupRoot p)))
             (if sendOutUpdate \<and> length (ps_existingAttendees p) \<noteq> 0
              then invoke ext (SendUpdate (ps_newEvent p) (distributionAddresses (ps_existingAttendees p)))
              else resolved))
          (if sendOutUpdate \<and> length (ps_newAttendees p) \<noteq> 0
           then invoke ext (SendInvite (ps_newEvent p) (distributionAddresses (ps_newAttendees p)))
           else resolved))
       (if sendOutUpdate \<and> length (ps_removedAttendees p) \<noteq> 0
        then notAwaited (invoke ext (SendCancellation (ps_newEvent p)
                                       (distributionAddresses (ps_removedAttendees p))))
        else resolved)"

text \<open>
  The event that \<^verbatim>\<open>onOkPressed\<close> assembles, in three steps. First the clone of the
  existing event, or a fresh event, with the instants, the texts and the uid
  (lines 422 and 450 to 456).
\<close>

definition timedEvent ::
  "externals \<Rightarrow> date \<Rightarrow> CalendarEventViewModel \<Rightarrow> date \<Rightarrow> date \<Rightarrow> CalendarEvent" where
  "timedEvent ext now vm startDate' endDate' =
     (let newEvent0 = (case existingEvent vm of Some e \<Rightarrow> e | None \<Rightarrow> createCalendarEvent ext);
          newEvent1 = newEvent0 \<lparr> ev_startTime := startDate',
                                  ev_description := note_text vm,
                                  ev_summary := summary vm,
                                  ev_location := location vm,
                                  ev_endTime := endDate' \<rparr>
      in newEvent1 \<lparr> ev_uid :=
           (case existingEvent vm of
              Some e \<Rightarrow> if truthy (ev_uid e) then ev_uid e
                        else Some (generateUid ext newEvent1 now)
            | None \<Rightarrow> Some (generateUid ext newEvent1 now)) \<rparr>)"

text \<open>Last the attendees, the sequence and the organizer (lines 490 to 501).\<close>

definition completeEvent :: "externals \<Rightarrow> CalendarEventViewModel \<Rightarrow> CalendarEvent \<Rightarrow> CalendarEvent" where
  "completeEvent ext vm newEvent3 =
     (let newEvent4 = newEvent3 \<lparr> ev_attendees := attendees vm \<rparr>;
          newEvent5 = (case existingEvent vm of
                         Some e \<Rightarrow> newEvent4 \<lparr> ev_sequence := String (plus1 (filterInt ext (ev_sequence e))) \<rparr>
                       | None \<Rightarrow> newEvent4)
      in newEvent5 \<lparr> ev_organizer := organizer vm \<rparr>)"

text \<open>
  In between the repeat rule (lines 457 to 488); \<open>Inl\<close> is the key of its error
  result.
\<close>

definition assembleEvent ::
  "externals \<Rightarrow> date \<Rightarrow> CalendarEventViewModel \<Rightarrow> date \<Rightarrow> date \<Rightarrow> string + CalendarEvent" where
  "assembleEvent ext now vm startDate' endDate' =
     (case assembleRepeatRule ext vm (timedEvent ext now vm startDate' endDate') of
        Inl key \<Rightarrow> Inl key
      | Inr newEvent3 \<Rightarrow> Inr (completeEvent ext vm newEvent3))"

text \<open>
  The decision of lines 495 to 577 once the event is assembled: the diff or the own
  response, then either the pending result with the callback or the immediate
  save.
\<close>

definition dispatch ::
  "externals \<Rightarrow> CalendarEventViewModel \<Rightarrow> CalendarEvent \<Rightarrow> Id \<Rightarrow>
     EventCreateResult completion \<times> call list \<times> CalendarEventViewModel" where
  "dispatch ext vm newEvent groupRoot =
     (case (if viewingOwnEvent vm
            then (attendeeDiff (mailAddresses vm) (existingEvent vm) (attendees vm), existingEvent vm, [])
            else (([], [], []), ownResponse vm newEvent))
      of ((newAttendees, existingAttendees, removedAttendees), existing', sent) \<Rightarrow>
        (let vm' = vm \<lparr> existingEvent := existing' \<rparr>
         in if (viewingOwnEvent vm' \<and> length existingAttendees \<noteq> 0) \<or> length removedAttendees \<noteq> 0
            then (Resolved (Ok (Some \<lparr> ps_existingEvent = existing',
                                       ps_newEvent = newEvent,
                                       ps_newAlarms = alarms vm,
                                       ps_zone = zone vm,
                                       ps_groupRoot = groupRoot,
                                       ps_existingAttendees = existingAttendees,
                                       ps_newAttendees = newAttendees,
                                       ps_removedAttendees = removedAttendees \<rparr>)),
                  sent, vm')
            else (case andThen (invoke ext (doCreateEvent existing' newEvent (alarms vm) (zone vm) groupRoot))
                         (if length newAttendees \<noteq> 0
                          then invoke ext (SendInvite newEvent (distributionAddresses newAttendees))
                          else resolved)
                  of (settled, issued) \<Rightarrow>
                    ((case settled of
                        Resolved _ \<Rightarrow> Resolved (Ok None)
                      | Rejected err \<Rightarrow> Rejected err
                      | Thrown err \<Rightarrow> Thrown err),
                     sent @ issued, vm'))))"

text \<open>
  \<^verbatim>\<open>onOkPressed\<close> (lines 418 to 578): the settled result, the calls issued before
  the promise settled, and the state afterwards. \<open>now\<close> is \<^verbatim>\<open>Date.now()\<close>.
  Reading \<^verbatim>\<open>groupRoot\<close> of an undefined selected calendar (line 455) throws.
\<close>

definition onOkPressed ::
  "externals \<Rightarrow> date \<Rightarrow> CalendarEventViewModel \<Rightarrow>
     EventCreateResult completion \<times> call list \<times> CalendarEventViewModel" where
  "onOkPressed ext now vm =
     (case startEndInstants ext vm of
        None \<Rightarrow> (Resolved (Error ''timeFormatInvalid_msg''), [], vm)
      | Some (startDate', endDate') \<Rightarrow>
          if endDate' \<le> startDate'
          then (Resolved (Error ''startAfterEnd_label''), [], vm)
          else (case selectedCalendar vm of
                  None \<Rightarrow> (Thrown TypeError, [], vm)
                | Some cal \<Rightarrow>
                    (case assembleEvent ext now vm startDate' endDate' of
                       Inl key \<Rightarrow> (Resolved (Error key), [], vm)
                     | Inr newEvent \<Rightarrow> dispatch ext vm newEvent (cal_groupRoot cal))))"

section \<open>Vocabulary of the properties\<close>

definition addressOf :: "CalendarEventAttendee \<Rightarrow> string" where
  "addressOf a = address (mail_address a)"

text \<open>The last-saved attendees: those of the existing event, none for a new event.\<close>

definition priorAttendees :: "CalendarEvent option \<Rightarrow> CalendarEventAttendee list" where
  "priorAttendees existing = (case existing of None \<Rightarrow> [] | Some e \<Rightarrow> ev_attendees e)"

definition isPersist :: "call \<Rightarrow> bool" where
  "isPersist c = (case c of CreateEvent _ _ _ _ \<Rightarrow> True | UpdateEvent _ _ _ _ _ \<Rightarrow> True | _ \<Rightarrow> False)"

definition isSend :: "call \<Rightarrow> bool" where
  "isSend c = (case c of SendInvite _ _ \<Rightarrow> True | SendUpdate _ _ \<Rightarrow> True
                 | SendCancellation _ _ \<Rightarrow> True | SendResponse _ _ _ \<Rightarrow> True | _ \<Rightarrow> False)"

text \<open>
  The inputs of a save are valid when the time strings parse (or the event is
  all-day), the end is after the start, a calendar is selected and the repeat rule
  raises no error: the save then reaches the decision of lines 495 to 577.
\<close>

definition validInputs :: "externals \<Rightarrow> date \<Rightarrow> CalendarEventViewModel \<Rightarrow> bool" where
  "validInputs ext now vm =
     (case startEndInstants ext vm of
        None \<Rightarrow> False
      | Some (s, e) \<Rightarrow>
          s < e \<and> selectedCalendar vm \<noteq> None \<and>
          (case assembleEvent ext now vm s e of Inl _ \<Rightarrow> False | Inr _ \<Rightarrow> True))"

section \<open>Scenarios\<close>

text \<open>
  Concrete collaborators and events, after the scenarios of
  \<^verbatim>\<open>CalendarEventViewModelTest.js\<close>: every collaborator call resolves, the zone
  utilities are simple arithmetic on timestamps.
\<close>

definition exampleExternals :: externals where
  "exampleExternals =
     \<lparr> hasCapabilityOnGroup = (\<lambda>usr g c. False),
       parseTime = (\<lambda>s. if s = ''12:00'' then Some (12, 0) else if s = ''13:00'' then Some (13, 0) else None),
       getAllDayDateUTCFromZone = (\<lambda>d z. d),
       getStartOfNextDayWithZone = (\<lambda>d z. d + 86400000),
       setHourMinute = (\<lambda>d z h m. d + int (h * 60 + m) * 60000),
       getEventStart = (\<lambda>e z. ev_startTime e),
       generateUid = (\<lambda>e t. ''uid''),
       filterInt = (\<lambda>s. Num 0),
       createRepeatRuleWithValues =
         (\<lambda>f i. \<lparr> rr_frequency = f, rr_interval = ''1'', rr_endType = Never,
                   rr_endValue = None, rr_timeZone = ''Europe/Berlin'' \<rparr>),
       createCalendarEvent =
         \<lparr> ev_id = None, ev_ownerGroup = None, ev_summary = [], ev_description = [],
           ev_location = [], ev_startTime = 0, ev_endTime = 0, ev_uid = None,
           ev_repeatRule = None, ev_attendees = [], ev_organizer = None,
           ev_sequence = ''0'', ev_isCopy = False \<rparr>,
       settles = (\<lambda>c. None) \<rparr>"

definition ownCalendar :: CalendarInfo where
  "ownCalendar = \<lparr> cal_group = ''0'', cal_groupRoot = ''root'', shared = False \<rparr>"

definition sharedCalendar :: CalendarInfo where
  "sharedCalendar = \<lparr> cal_group = ''0'', cal_groupRoot = ''root'', shared = True \<rparr>"

definition blankEvent :: CalendarEvent where
  "blankEvent = createCalendarEvent exampleExternals"

definition guest :: "string \<Rightarrow> CalendarAttendeeStatus \<Rightarrow> CalendarEventAttendee" where
  "guest a st = \<lparr> mail_address = \<lparr> name = [], address = a \<rparr>, status = st \<rparr>"

text \<open>An event of the viewer (\<^verbatim>\<open>me@t\<close>) with the guests \<^verbatim>\<open>old@x\<close> and \<^verbatim>\<open>gone@x\<close>.\<close>

definition ownedEvent :: CalendarEvent where
  "ownedEvent = blankEvent \<lparr> ev_ownerGroup := Some ''0'', ev_organizer := Some ''me@t'',
                             ev_attendees := [guest ''old@x'' NEEDS_ACTION, guest ''gone@x'' NEEDS_ACTION] \<rparr>"

text \<open>An invitation of another organizer on which the viewer has not yet answered.\<close>

definition invitation :: CalendarEvent where
  "invitation = blankEvent \<lparr> ev_organizer := Some ''boss@x'', ev_isCopy := True,
                             ev_attendees := [guest ''me@t'' NEEDS_ACTION, guest ''peer@x'' DECLINED] \<rparr>"

text \<open>The fields a new dialog shows: a timed event from 12:00 to 13:00.\<close>

definition exampleForm :: FormFields where
  "exampleForm = \<lparr> f_summary = ''meeting'', f_startDate = 0, f_endDate = 0, f_startTime = ''12:00'',
                    f_endTime = ''13:00'', f_allDay = False, f_repeat = None, f_location = [], f_note = [] \<rparr>"

text \<open>The viewer opens the own event, then invites \<^verbatim>\<open>new@x\<close> and removes \<^verbatim>\<open>gone@x\<close>.\<close>

definition ownerViewModel :: CalendarEventViewModel where
  "ownerViewModel =
     projr (newViewModel exampleExternals ''u'' ''me@t'' [''me@t''] False ''Europe/Berlin''
              [(''0'', ownCalendar)] (Some ownedEvent) exampleForm)"

definition editedViewModel :: CalendarEventViewModel where
  "editedViewModel = removeAttendee (addAttendee ownerViewModel ''new@x'') ''gone@x''"

text \<open>The viewer opens the invitation and accepts it.\<close>

definition guestViewModel :: CalendarEventViewModel where
  "guestViewModel =
     snd (selectGoing
            (projr (newViewModel exampleExternals ''u'' ''me@t'' [''me@t''] False ''Europe/Berlin''
                      [(''0'', ownCalendar)] (Some invitation) exampleForm))
            ACCEPTED)"

text \<open>The own event with a repeat rule that ends after zero occurrences.\<close>

definition countViewModel :: CalendarEventViewModel where
  "countViewModel =
     ownerViewModel \<lparr> repeat := Some \<lparr> frequency = WEEKLY, interval = Num 1, endType = Count,
                                          endValue = Num 0 \<rparr> \<rparr>"

text \<open>The events and the pending save that these scenarios produce.\<close>

definition answeredInvitation :: CalendarEvent where
  "answeredInvitation =
     invitation \<lparr> ev_attendees := [guest ''me@t'' ACCEPTED, guest ''peer@x'' DECLINED] \<rparr>"

definition savedInvitation :: CalendarEvent where
  "savedInvitation =
     answeredInvitation \<lparr> ev_startTime := 43200000, ev_endTime := 46800000, ev_summary := ''meeting'',
                           ev_uid := Some ''uid'', ev_sequence := ''1'' \<rparr>"

definition savedOwnedEvent :: CalendarEvent where
  "savedOwnedEvent =
     ownedEvent \<lparr> ev_attendees := [guest ''old@x'' NEEDS_ACTION, guest ''new@x'' NEEDS_ACTION],
                   ev_startTime := 43200000, ev_endTime := 46800000, ev_summary := ''meeting'',
                   ev_uid := Some ''uid'', ev_sequence := ''1'' \<rparr>"

definition pendingUpdate :: PendingSave where
  "pendingUpdate =
     \<lparr> ps_existingEvent = Some ownedEvent, ps_newEvent = savedOwnedEvent, ps_newAlarms = [],
       ps_zone = ''Europe/Berlin'', ps_groupRoot = ''root'',
       ps_existingAttendees = [guest ''old@x'' NEEDS_ACTION],
       ps_newAttendees = [guest ''new@x'' NEEDS_ACTION],
       ps_removedAttendees = [guest ''gone@x'' NEEDS_ACTION] \<rparr>"

section \<open>The classification of an event\<close>

text \<open>
  Claim C1. The classification follows first-match rules: without an existing event
  it is OWN; otherwise, when the owning calendar of the event is not in the calendar
  map (the owner group is not set, or the map has no entry for it) it is INVITE;
  otherwise, when that calendar is shared it is SHARED_RW if the viewer has the Write
  capability on the calendar's group and SHARED_RO if not; otherwise it is INVITE for
  a copy and OWN for any other event. The four cases cover every existing event,
  calendar map, capability and copy flag.
\<close>

theorem C1_classification_first_match:
  "classifyEvent ext usr cals None = OWN \<and>
   ((\<forall>g. ev_ownerGroup e = Some g \<and> g \<noteq> [] \<longrightarrow> map_of cals g = None) \<longrightarrow>
      classifyEvent ext usr cals (Some e) = INVITE) \<and>
   (ev_ownerGroup e = Some g \<and> g \<noteq> [] \<and> map_of cals g = Some info \<and> shared info \<longrightarrow>
      classifyEvent ext usr cals (Some e) =
        (if hasCapabilityOnGroup ext usr (cal_group info) Write then SHARED_RW else SHARED_RO)) \<and>
   (ev_ownerGroup e = Some g \<and> g \<noteq> [] \<and> map_of cals g = Some info \<and> \<not> shared info \<longrightarrow>
      classifyEvent ext usr cals (Some e) = (if ev_isCopy e then INVITE else OWN))"
  by (auto simp: classifyEvent_def calendarInfoForEvent_def split: option.splits)

theorem C1_classification_witness:
  "classifyEvent exampleExternals ''u'' [(''0'', ownCalendar)] None = OWN \<and>
   classifyEvent exampleExternals ''u'' [(''0'', ownCalendar)] (Some invitation) = INVITE \<and>
   classifyEvent exampleExternals ''u'' [(''0'', sharedCalendar)] (Some ownedEvent) = SHARED_RO \<and>
   classifyEvent exampleExternals ''u'' [(''0'', ownCalendar)] (Some ownedEvent) = OWN"
  using C1_classification_first_match [of exampleExternals "''u''" "[(''0'', ownCalendar)]" invitation "''0''" ownCalendar]
    C1_classification_first_match [of exampleExternals "''u''" "[(''0'', sharedCalendar)]" ownedEvent "''0''" sharedCalendar]
    C1_classification_first_match [of exampleExternals "''u''" "[(''0'', ownCalendar)]" ownedEvent "''0''" ownCalendar]
  by (simp add: exampleExternals_def ownCalendar_def sharedCalendar_def blankEvent_def
        ownedEvent_def invitation_def)

text \<open>
  Claim C2. The constructor never fails, and the view-model it builds is read-only
  exactly when the classification is SHARED_RO, or it is SHARED_RW and the existing
  event has an attendee at construction time; so it is not read-only for OWN, for
  INVITE, and for SHARED_RW with an existing event without guests.
\<close>

theorem C2_readOnly:
  "\<exists>vm. newViewModel ext usr defaultSender own ampm z cals existing form = Inr vm \<and>
        eventType vm = classifyEvent ext usr cals existing \<and>
        existingEvent vm = existing \<and>
        readOnly vm =
          (eventType vm = SHARED_RO \<or>
           (eventType vm = SHARED_RW \<and> (\<exists>e. existing = Some e \<and> ev_attendees e \<noteq> [])))"
  by (cases "classifyEvent ext usr cals existing"; cases existing)
     (auto simp: newViewModel_def computeReadOnly_def assertNotNull_def Let_def classifyEvent_def
           split: option.splits)

section \<open>The attendee diff\<close>

lemma find_sameAddress_iff:
  "(find (\<lambda>ea. sameAddress ea a) prior \<noteq> None) = (addressOf a \<in> addressOf ` set prior)"
  unfolding find_None_iff sameAddress_def addressOf_def image_iff by metis

lemma find_sameAddress_None_iff:
  "(find (\<lambda>a. sameAddress ea a) current = None) = (addressOf ea \<notin> addressOf ` set current)"
  unfolding find_None_iff sameAddress_def addressOf_def image_iff by metis

text \<open>The loop over the current attendees computes two filters of that list.\<close>

lemma diffCurrent_filter:
  "diffCurrent own prior current (ex, nw) =
     (ex @ filter (\<lambda>a. \<not> isOwnAddress own a \<and> addressOf a \<in> addressOf ` set prior) current,
      nw @ filter (\<lambda>a. \<not> isOwnAddress own a \<and> addressOf a \<notin> addressOf ` set prior) current)"
proof (induction current arbitrary: ex nw)
  case Nil
  show ?case by simp
next
  case (Cons a rest)
  show ?case
    using find_sameAddress_iff [of a prior]
    by (simp add: Cons.IH del: image_eqI)
qed

lemma attendeeDiff_filter:
  "attendeeDiff own existing current =
     (filter (\<lambda>a. \<not> isOwnAddress own a \<and> addressOf a \<notin> addressOf ` set (priorAttendees existing)) current,
      filter (\<lambda>a. \<not> isOwnAddress own a \<and> addressOf a \<in> addressOf ` set (priorAttendees existing)) current,
      filter (\<lambda>ea. \<not> isOwnAddress own ea \<and> addressOf ea \<notin> addressOf ` set current) (priorAttendees existing))"
  by (cases existing)
     (simp_all add: attendeeDiff_def priorAttendees_def diffCurrent_filter find_sameAddress_None_iff)

lemma own_by_address:
  "isOwnAddress own a \<Longrightarrow> addressOf b = addressOf a \<Longrightarrow> isOwnAddress own b"
  by (simp add: isOwnAddress_def addressOf_def)

lemma image_filter_disjoint:
  "(\<And>x y. x \<in> set xs \<Longrightarrow> P x \<Longrightarrow> y \<in> set ys \<Longrightarrow> Q y \<Longrightarrow> f x \<noteq> f y) \<Longrightarrow>
     f ` set (filter P xs) \<inter> f ` set (filter Q ys) = {}"
  by auto

text \<open>
  Claim C5. For every prior list (the attendees of the existing event, none for a
  new event) and every current list, the diff of the organizer is such that: no
  address of the viewer, on a current or a prior attendee, is the address of a member
  of any of the three lists; the retained list is the current attendees, other than
  the viewer, whose address is in the prior list, and the new list is those whose
  address is not; the removed list is the prior attendees, other than the viewer,
  whose address is not in the current list; the three lists are pairwise disjoint
  by address; and with an empty prior list nothing is retained or removed.
\<close>

theorem C5_attendee_diff:
  "(case attendeeDiff own existing current of
      (newAttendees, retained, removed) \<Rightarrow>
        (\<forall>a \<in> set current \<union> set (priorAttendees existing).
           isOwnAddress own a \<longrightarrow>
             addressOf a \<notin> addressOf ` (set newAttendees \<union> set retained \<union> set removed)) \<and>
        retained = filter (\<lambda>a. \<not> isOwnAddress own a \<and>
                            addressOf a \<in> addressOf ` set (priorAttendees existing)) current \<and>
        newAttendees = filter (\<lambda>a. \<not> isOwnAddress own a \<and>
                            addressOf a \<notin> addressOf ` set (priorAttendees existing)) current \<and>
        removed = filter (\<lambda>a. \<not> isOwnAddress own a \<and>
                            addressOf a \<notin> addressOf ` set current) (priorAttendees existing) \<and>
        addressOf ` set newAttendees \<inter> addressOf ` set retained = {} \<and>
        addressOf ` set newAttendees \<inter> addressOf ` set removed = {} \<and>
        addressOf ` set retained \<inter> addressOf ` set removed = {} \<and>
        (priorAttendees existing = [] \<longrightarrow> retained = [] \<and> removed = []))"
proof -
  let ?prior = "priorAttendees existing"
  let ?new = "filter (\<lambda>a. \<not> isOwnAddress own a \<and> addressOf a \<notin> addressOf ` set ?prior) current"
  let ?ret = "filter (\<lambda>a. \<not> isOwnAddress own a \<and> addressOf a \<in> addressOf ` set ?prior) current"
  let ?rem = "filter (\<lambda>a. \<not> isOwnAddress own a \<and> addressOf a \<notin> addressOf ` set current) ?prior"
  have notOwn: "\<not> isOwnAddress own b" if "b \<in> set ?new \<union> set ?ret \<union> set ?rem" for b
    using that by auto
  have excluded: "\<forall>a \<in> set current \<union> set ?prior.
      isOwnAddress own a \<longrightarrow> addressOf a \<notin> addressOf ` (set ?new \<union> set ?ret \<union> set ?rem)"
  proof (intro ballI impI notI)
    fix a
    assume "isOwnAddress own a" and "addressOf a \<in> addressOf ` (set ?new \<union> set ?ret \<union> set ?rem)"
    then obtain b where "b \<in> set ?new \<union> set ?ret \<union> set ?rem" and "addressOf b = addressOf a"
      by (metis (no_types, lifting) imageE)
    with \<open>isOwnAddress own a\<close> show False
      using notOwn own_by_address by blast
  qed
  have d1: "addressOf ` set ?new \<inter> addressOf ` set ?ret = {}"
    by (rule image_filter_disjoint) auto
  have d2: "addressOf ` set ?new \<inter> addressOf ` set ?rem = {}"
    by (rule image_filter_disjoint) auto
  have d3: "addressOf ` set ?ret \<inter> addressOf ` set ?rem = {}"
    by (rule image_filter_disjoint) (metis imageI)
  have empty: "?prior = [] \<longrightarrow> ?ret = [] \<and> ?rem = []"
    by simp
  show ?thesis
    unfolding attendeeDiff_filter prod.case
    using excluded d1 d2 d3 empty by blast
qed

theorem C5_attendee_diff_witness:
  "attendeeDiff [''me@t''] (Some ownedEvent)
     [guest ''me@t'' ACCEPTED, guest ''old@x'' NEEDS_ACTION, guest ''new@x'' NEEDS_ACTION]
   = ([guest ''new@x'' NEEDS_ACTION], [guest ''old@x'' NEEDS_ACTION], [guest ''gone@x'' NEEDS_ACTION]) \<and>
   attendeeDiff [''me@t''] None [guest ''me@t'' ACCEPTED, guest ''new@x'' NEEDS_ACTION]
   = ([guest ''new@x'' NEEDS_ACTION], [], [])"
  using C5_attendee_diff [where own = "[''me@t'']" and existing = "Some ownedEvent" and
      current = "[guest ''me@t'' ACCEPTED, guest ''old@x'' NEEDS_ACTION, guest ''new@x'' NEEDS_ACTION]"]
    C5_attendee_diff [where own = "[''me@t'']" and existing = None and
      current = "[guest ''me@t'' ACCEPTED, guest ''new@x'' NEEDS_ACTION]"]
  by (simp add: attendeeDiff_def isOwnAddress_def sameAddress_def guest_def ownedEvent_def
        blankEvent_def exampleExternals_def)

section \<open>The scenarios, evaluated\<close>

lemmas scenario_defs =
  exampleExternals_def ownCalendar_def sharedCalendar_def blankEvent_def guest_def ownedEvent_def
  invitation_def exampleForm_def

lemma ownerViewModel_state:
  "ownerViewModel =
     \<lparr> summary = ''meeting'', calendars = [ownCalendar], selectedCalendar = Some ownCalendar,
       startDate = 0, endDate = 0, startTime = ''12:00'', endTime = ''13:00'', allDay = False,
       repeat = None, attendees = [guest ''old@x'' NEEDS_ACTION, guest ''gone@x'' NEEDS_ACTION],
       organizer = Some ''me@t'', possibleOrganizers = [''me@t''], location = [], note_text = [],
       amPmFormat = False, existingEvent = Some ownedEvent, readOnly = False,
       zone = ''Europe/Berlin'', alarms = [], going = NEEDS_ACTION, user = ''u'',
       eventType = OWN, mailAddresses = [''me@t''] \<rparr>"
  by (simp add: ownerViewModel_def newViewModel_def classifyEvent_def calendarInfoForEvent_def
        computeReadOnly_def assertNotNull_def truthy_def findOwnAttendee_def isOwnAddress_def
        canModifyOrganizer_def notCopy_def Let_def scenario_defs)

lemma editedViewModel_state:
  "editedViewModel =
     ownerViewModel \<lparr> attendees := [guest ''old@x'' NEEDS_ACTION, guest ''new@x'' NEEDS_ACTION] \<rparr>"
  by (simp add: editedViewModel_def ownerViewModel_state addAttendee_def removeAttendee_def guest_def)

lemma guestViewModel_state:
  "guestViewModel =
     \<lparr> summary = ''meeting'', calendars = [ownCalendar], selectedCalendar = Some ownCalendar,
       startDate = 0, endDate = 0, startTime = ''12:00'', endTime = ''13:00'', allDay = False,
       repeat = None, attendees = [guest ''me@t'' ACCEPTED, guest ''peer@x'' DECLINED],
       organizer = Some ''boss@x'', possibleOrganizers = [''boss@x''], location = [], note_text = [],
       amPmFormat = False, existingEvent = Some invitation, readOnly = False,
       zone = ''Europe/Berlin'', alarms = [], going = ACCEPTED, user = ''u'',
       eventType = INVITE, mailAddresses = [''me@t''] \<rparr>"
  by (simp add: guestViewModel_def newViewModel_def classifyEvent_def calendarInfoForEvent_def
        computeReadOnly_def assertNotNull_def truthy_def findOwnAttendee_def isOwnAddress_def
        canModifyOrganizer_def canModifyOwnAttendance_def viewingOwnEvent_def selectGoing_def
        notCopy_def Let_def scenario_defs)

lemma String_1: "String (Num 1) = ''1''"
  by code_simp

lemma guest_save_run:
  "onOkPressed exampleExternals 0 guestViewModel =
     (Resolved (Ok None),
      [SendResponse savedInvitation \<lparr> ma_name = [], ma_address = ''me@t'' \<rparr> ACCEPTED,
       UpdateEvent savedInvitation [] ''Europe/Berlin'' ''root'' answeredInvitation],
      guestViewModel \<lparr> existingEvent := Some answeredInvitation \<rparr>)"
  by (simp add: guestViewModel_state onOkPressed_def startEndInstants_def assembleEvent_def timedEvent_def completeEvent_def
        assembleRepeatRule_def dispatch_def viewingOwnEvent_def ownResponse_def isOwnAddress_def
        doCreateEvent_def andThen_def invoke_def resolved_def truthy_def plus1_def String_1
        answeredInvitation_def savedInvitation_def scenario_defs Let_def)

lemma edited_diff:
  "attendeeDiff (mailAddresses editedViewModel) (existingEvent editedViewModel) (attendees editedViewModel) =
     ([guest ''new@x'' NEEDS_ACTION], [guest ''old@x'' NEEDS_ACTION], [guest ''gone@x'' NEEDS_ACTION])"
  by (simp add: editedViewModel_state ownerViewModel_state attendeeDiff_def isOwnAddress_def
        sameAddress_def scenario_defs)

lemma edited_viewingOwnEvent: "viewingOwnEvent editedViewModel"
  by (simp add: editedViewModel_state ownerViewModel_state viewingOwnEvent_def scenario_defs)

lemma edited_assembled:
  "assembleEvent exampleExternals 0 editedViewModel 43200000 46800000 = Inr savedOwnedEvent"
  by (simp add: editedViewModel_state ownerViewModel_state assembleEvent_def timedEvent_def completeEvent_def assembleRepeatRule_def
        truthy_def plus1_def String_1 savedOwnedEvent_def scenario_defs Let_def)

lemma edited_instants:
  "startEndInstants exampleExternals editedViewModel = Some (43200000, 46800000)"
  by (simp add: editedViewModel_state ownerViewModel_state startEndInstants_def scenario_defs)

lemma edited_fields:
  "selectedCalendar editedViewModel = Some ownCalendar" "existingEvent editedViewModel = Some ownedEvent"
  "alarms editedViewModel = []" "zone editedViewModel = ''Europe/Berlin''"
  by (simp_all add: editedViewModel_state ownerViewModel_state)

lemma edited_validInputs: "validInputs exampleExternals 0 editedViewModel"
  by (simp add: validInputs_def edited_instants edited_assembled edited_fields)

section \<open>The save of the organizer\<close>

lemma isPersist_doCreateEvent: "isPersist (doCreateEvent ex ev al z g)"
  by (simp add: isPersist_def doCreateEvent_def split: option.splits)

lemma isSend_doCreateEvent: "\<not> isSend (doCreateEvent ex ev al z g)"
  by (simp add: isSend_def doCreateEvent_def split: option.splits)

lemma isPersist_sends:
  "\<not> isPersist (SendUpdate ev rs)" "\<not> isPersist (SendInvite ev rs)"
  "\<not> isPersist (SendCancellation ev rs)" "\<not> isPersist (SendResponse ev m st)"
  by (simp_all add: isPersist_def)

lemma validInputs_dispatch:
  assumes "validInputs ext now vm"
  shows "\<exists>s e cal newEvent.
    startEndInstants ext vm = Some (s, e) \<and> s < e \<and> selectedCalendar vm = Some cal \<and>
    assembleEvent ext now vm s e = Inr newEvent \<and>
    onOkPressed ext now vm = dispatch ext vm newEvent (cal_groupRoot cal)"
proof -
  obtain s e where se: "startEndInstants ext vm = Some (s, e)"
    using assms by (cases "startEndInstants ext vm") (auto simp: validInputs_def)
  with assms have lt: "s < e" and sel: "selectedCalendar vm \<noteq> None"
    and asm: "case assembleEvent ext now vm s e of Inl _ \<Rightarrow> False | Inr _ \<Rightarrow> True"
    by (simp_all add: validInputs_def)
  from sel obtain cal where cal: "selectedCalendar vm = Some cal" by auto
  from asm obtain newEvent where ev: "assembleEvent ext now vm s e = Inr newEvent"
    by (cases "assembleEvent ext now vm s e") auto
  have "onOkPressed ext now vm = dispatch ext vm newEvent (cal_groupRoot cal)"
    using se lt cal ev by (simp add: onOkPressed_def)
  with se lt cal ev show ?thesis by blast
qed

lemma askForUpdates_calls:
  "snd (askForUpdates ext p b) =
     doCreateEvent (ps_existingEvent p) (ps_newEvent p) (ps_newAlarms p) (ps_zone p) (ps_groupRoot p) #
     (if settles ext (doCreateEvent (ps_existingEvent p) (ps_newEvent p) (ps_newAlarms p) (ps_zone p)
                        (ps_groupRoot p)) \<noteq> None \<or> \<not> b
      then []
      else (if ps_existingAttendees p \<noteq> []
            then [SendUpdate (ps_newEvent p) (distributionAddresses (ps_existingAttendees p))] else []) @
           (if ps_existingAttendees p \<noteq> [] \<and>
               settles ext (SendUpdate (ps_newEvent p) (distributionAddresses (ps_existingAttendees p))) \<noteq> None
            then []
            else (if ps_newAttendees p \<noteq> []
                  then [SendInvite (ps_newEvent p) (distributionAddresses (ps_newAttendees p))] else []) @
                 (if ps_newAttendees p \<noteq> [] \<and>
                     settles ext (SendInvite (ps_newEvent p) (distributionAddresses (ps_newAttendees p))) \<noteq> None
                  then []
                  else (if ps_removedAttendees p \<noteq> []
                        then [SendCancellation (ps_newEvent p) (distributionAddresses (ps_removedAttendees p))]
                        else []))))"
  by (cases "settles ext (doCreateEvent (ps_existingEvent p) (ps_newEvent p) (ps_newAlarms p) (ps_zone p)
                        (ps_groupRoot p))";
      cases b;
      cases "settles ext (SendUpdate (ps_newEvent p) (distributionAddresses (ps_existingAttendees p)))";
      cases "settles ext (SendInvite (ps_newEvent p) (distributionAddresses (ps_newAttendees p)))";
      cases "settles ext (SendCancellation (ps_newEvent p) (distributionAddresses (ps_removedAttendees p)))")
     (simp_all add: askForUpdates_def andThen_def invoke_def resolved_def notAwaited_def)

lemma dispatch_organizer:
  assumes "viewingOwnEvent vm"
    and "attendeeDiff (mailAddresses vm) (existingEvent vm) (attendees vm) = (newAttendees, retained, removed)"
    and "retained \<noteq> [] \<or> removed \<noteq> []"
  shows "dispatch ext vm newEvent groupRoot =
     (Resolved (Ok (Some \<lparr> ps_existingEvent = existingEvent vm, ps_newEvent = newEvent,
                            ps_newAlarms = alarms vm, ps_zone = zone vm, ps_groupRoot = groupRoot,
                            ps_existingAttendees = retained, ps_newAttendees = newAttendees,
                            ps_removedAttendees = removed \<rparr>)), [], vm)"
proof -
  have own: "viewingOwnEvent (vm \<lparr> existingEvent := existingEvent vm \<rparr>)"
    using assms(1) by simp
  show ?thesis
    using assms own by (auto simp: dispatch_def)
qed

lemma organizer_save_run:
  "onOkPressed exampleExternals 0 editedViewModel = (Resolved (Ok (Some pendingUpdate)), [], editedViewModel)"
proof -
  have "onOkPressed exampleExternals 0 editedViewModel =
          dispatch exampleExternals editedViewModel savedOwnedEvent ''root''"
    by (simp add: onOkPressed_def edited_instants edited_assembled edited_fields ownCalendar_def)
  also have "\<dots> = (Resolved (Ok (Some pendingUpdate)), [], editedViewModel)"
    using dispatch_organizer [OF edited_viewingOwnEvent edited_diff, of exampleExternals savedOwnedEvent "''root''"]
    by (simp add: pendingUpdate_def edited_fields)
  finally show ?thesis .
qed

text \<open>
  Claim C3. When the viewer is the organizer and the inputs are valid, and the diff
  has a retained or a removed attendee, \<^verbatim>\<open>onOkPressed\<close> resolves with the \<^verbatim>\<open>ok\<close>
  result that carries the callback, having issued no call on the store or the
  distributor and leaving the view-model as it was. The callback holds the three
  lists of the diff. Called with either answer it issues exactly one persisting call
  (the create or update of \<^verbatim>\<open>doCreateEvent\<close>); it issues a distributor call only
  when the answer is true; called with false, the persisting call is all it issues.
\<close>

theorem C3_organizer_asks_for_updates:
  assumes "viewingOwnEvent vm" and "validInputs ext now vm"
    and "attendeeDiff (mailAddresses vm) (existingEvent vm) (attendees vm) = (newAttendees, retained, removed)"
    and "retained \<noteq> [] \<or> removed \<noteq> []"
  shows "\<exists>p. onOkPressed ext now vm = (Resolved (Ok (Some p)), [], vm) \<and>
             ps_newAttendees p = newAttendees \<and> ps_existingAttendees p = retained \<and>
             ps_removedAttendees p = removed \<and>
             (\<exists>s e. startEndInstants ext vm = Some (s, e) \<and>
                    assembleEvent ext now vm s e = Inr (ps_newEvent p)) \<and>
             (\<forall>b. filter isPersist (snd (askForUpdates ext p b)) =
                     [doCreateEvent (existingEvent vm) (ps_newEvent p) (alarms vm) (zone vm) (ps_groupRoot p)]) \<and>
             (\<forall>b. filter isSend (snd (askForUpdates ext p b)) \<noteq> [] \<longrightarrow> b) \<and>
             snd (askForUpdates ext p False) =
               [doCreateEvent (existingEvent vm) (ps_newEvent p) (alarms vm) (zone vm) (ps_groupRoot p)]"
proof -
  from validInputs_dispatch [OF assms(2)] obtain s e and cal :: CalendarInfo and newEvent :: CalendarEvent where
    "startEndInstants ext vm = Some (s, e)" and "assembleEvent ext now vm s e = Inr newEvent"
    and run: "onOkPressed ext now vm = dispatch ext vm newEvent (cal_groupRoot cal)"
    by blast
  then have assembled: "\<exists>s e. startEndInstants ext vm = Some (s, e) \<and>
      assembleEvent ext now vm s e = Inr newEvent"
    by blast
  let ?p = "\<lparr> ps_existingEvent = existingEvent vm, ps_newEvent = newEvent,
              ps_newAlarms = alarms vm, ps_zone = zone vm, ps_groupRoot = cal_groupRoot cal,
              ps_existingAttendees = retained, ps_newAttendees = newAttendees,
              ps_removedAttendees = removed \<rparr>"
  have res: "onOkPressed ext now vm = (Resolved (Ok (Some ?p)), [], vm)"
    using run dispatch_organizer [OF assms(1) assms(3) assms(4)] by simp
  have persist: "\<forall>b. filter isPersist (snd (askForUpdates ext ?p b)) =
      [doCreateEvent (existingEvent vm) (ps_newEvent ?p) (alarms vm) (zone vm) (ps_groupRoot ?p)]"
    unfolding askForUpdates_calls
    by (simp add: isPersist_doCreateEvent isPersist_sends)
  have sends: "\<forall>b. filter isSend (snd (askForUpdates ext ?p b)) \<noteq> [] \<longrightarrow> b"
    unfolding askForUpdates_calls
    by (simp add: isSend_doCreateEvent)
  have silent: "snd (askForUpdates ext ?p False) =
      [doCreateEvent (existingEvent vm) (ps_newEvent ?p) (alarms vm) (zone vm) (ps_groupRoot ?p)]"
    unfolding askForUpdates_calls by simp
  show ?thesis
    by (intro exI [of _ ?p] conjI; (rule res persist sends silent | simp add: assembled))
qed

theorem C3_organizer_witness:
  "viewingOwnEvent editedViewModel \<and> validInputs exampleExternals 0 editedViewModel \<and>
   onOkPressed exampleExternals 0 editedViewModel = (Resolved (Ok (Some pendingUpdate)), [], editedViewModel) \<and>
   snd (askForUpdates exampleExternals pendingUpdate False) =
     [UpdateEvent savedOwnedEvent [] ''Europe/Berlin'' ''root'' ownedEvent]"
proof -
  have nonempty: "[guest ''old@x'' NEEDS_ACTION] \<noteq> [] \<or> [guest ''gone@x'' NEEDS_ACTION] \<noteq> []"
    by simp
  from C3_organizer_asks_for_updates [OF edited_viewingOwnEvent edited_validInputs edited_diff nonempty]
  obtain p where "onOkPressed exampleExternals 0 editedViewModel = (Resolved (Ok (Some p)), [], editedViewModel)"
    and silent: "snd (askForUpdates exampleExternals p False) =
      [doCreateEvent (existingEvent editedViewModel) (ps_newEvent p) (alarms editedViewModel)
         (zone editedViewModel) (ps_groupRoot p)]"
    by blast
  then have p: "p = pendingUpdate"
    by (simp add: organizer_save_run)
  have "snd (askForUpdates exampleExternals pendingUpdate False) =
     [UpdateEvent savedOwnedEvent [] ''Europe/Berlin'' ''root'' ownedEvent]"
    using silent unfolding p
    by (simp add: pendingUpdate_def doCreateEvent_def edited_fields)
  then show ?thesis
    using edited_viewingOwnEvent edited_validInputs organizer_save_run by simp
qed

text \<open>
  Claim C4. Within one confirmed save the calls are issued in a fixed order: the
  calls of the callback are an initial segment of the list persist, update to the
  retained attendees, invite to the new attendees, cancellation to the removed
  attendees (each present only when applicable), so a later one is never issued
  before an earlier one; and when the persisting call, the update and the invite
  resolve, the calls are that whole list.
\<close>

theorem C4_dispatch_order:
  "prefix (snd (askForUpdates ext p b))
     (doCreateEvent (ps_existingEvent p) (ps_newEvent p) (ps_newAlarms p) (ps_zone p) (ps_groupRoot p) #
      (if b \<and> ps_existingAttendees p \<noteq> []
       then [SendUpdate (ps_newEvent p) (distributionAddresses (ps_existingAttendees p))] else []) @
      (if b \<and> ps_newAttendees p \<noteq> []
       then [SendInvite (ps_newEvent p) (distributionAddresses (ps_newAttendees p))] else []) @
      (if b \<and> ps_removedAttendees p \<noteq> []
       then [SendCancellation (ps_newEvent p) (distributionAddresses (ps_removedAttendees p))] else [])) \<and>
   (settles ext (doCreateEvent (ps_existingEvent p) (ps_newEvent p) (ps_newAlarms p) (ps_zone p)
                   (ps_groupRoot p)) = None \<and>
    settles ext (SendUpdate (ps_newEvent p) (distributionAddresses (ps_existingAttendees p))) = None \<and>
    settles ext (SendInvite (ps_newEvent p) (distributionAddresses (ps_newAttendees p))) = None \<longrightarrow>
    snd (askForUpdates ext p b) =
      doCreateEvent (ps_existingEvent p) (ps_newEvent p) (ps_newAlarms p) (ps_zone p) (ps_groupRoot p) #
      (if b \<and> ps_existingAttendees p \<noteq> []
       then [SendUpdate (ps_newEvent p) (distributionAddresses (ps_existingAttendees p))] else []) @
      (if b \<and> ps_newAttendees p \<noteq> []
       then [SendInvite (ps_newEvent p) (distributionAddresses (ps_newAttendees p))] else []) @
      (if b \<and> ps_removedAttendees p \<noteq> []
       then [SendCancellation (ps_newEvent p) (distributionAddresses (ps_removedAttendees p))] else []))"
  unfolding askForUpdates_calls by simp

theorem C4_dispatch_order_witness:
  "snd (askForUpdates exampleExternals pendingUpdate True) =
     [UpdateEvent savedOwnedEvent [] ''Europe/Berlin'' ''root'' ownedEvent,
      SendUpdate savedOwnedEvent [\<lparr> name = [], address = ''old@x'' \<rparr>],
      SendInvite savedOwnedEvent [\<lparr> name = [], address = ''new@x'' \<rparr>],
      SendCancellation savedOwnedEvent [\<lparr> name = [], address = ''gone@x'' \<rparr>]]"
  using C4_dispatch_order [of exampleExternals pendingUpdate True]
  by (simp add: pendingUpdate_def doCreateEvent_def distributionAddresses_def guest_def
        exampleExternals_def)

section \<open>The save of a guest\<close>

lemma dispatch_guest:
  assumes "\<not> viewingOwnEvent vm" and "ownResponse vm newEvent = (existing', sent)"
  shows "dispatch ext vm newEvent groupRoot =
     ((case settles ext (doCreateEvent existing' newEvent (alarms vm) (zone vm) groupRoot) of
         None \<Rightarrow> Resolved (Ok None) | Some err \<Rightarrow> Rejected err),
      sent @ [doCreateEvent existing' newEvent (alarms vm) (zone vm) groupRoot],
      vm \<lparr> existingEvent := existing' \<rparr>)"
  using assms
  by (simp add: dispatch_def andThen_def invoke_def resolved_def split: option.splits)

text \<open>
  Claim C6. When the viewer is not the organizer and the inputs are valid, there is
  an existing event, and the calls of \<^verbatim>\<open>onOkPressed\<close> are: one \<^verbatim>\<open>sendResponse\<close>
  with the viewer's address and the selected status, exactly when the viewer is an
  attendee of the existing event, the selected status is not needs-action and it
  differs from the status saved on that attendee; then the one persisting call. The
  promise resolves with \<^verbatim>\<open>{status: "ok", askForUpdates: null}\<close> when the store call
  resolves and passes the store's failure on when it rejects; it never carries a
  callback.
\<close>

theorem C6_guest_response:
  assumes "\<not> viewingOwnEvent vm" and "validInputs ext now vm"
  shows "\<exists>e cal newEvent e'.
     existingEvent vm = Some e \<and> selectedCalendar vm = Some cal \<and>
     (\<exists>s t. startEndInstants ext vm = Some (s, t) \<and> assembleEvent ext now vm s t = Inr newEvent) \<and>
     fst (snd (onOkPressed ext now vm)) =
       (case find (isOwnAddress (mailAddresses vm)) (ev_attendees e) of
          Some a \<Rightarrow>
            if going vm \<noteq> NEEDS_ACTION \<and> status a \<noteq> going vm
            then [SendResponse newEvent \<lparr> ma_name = name (mail_address a), ma_address = addressOf a \<rparr> (going vm)]
            else []
        | None \<Rightarrow> [])
       @ [UpdateEvent newEvent (alarms vm) (zone vm) (cal_groupRoot cal) e'] \<and>
     fst (onOkPressed ext now vm) =
       (case settles ext (UpdateEvent newEvent (alarms vm) (zone vm) (cal_groupRoot cal) e') of
          None \<Rightarrow> Resolved (Ok None) | Some err \<Rightarrow> Rejected err) \<and>
     (\<forall>p. fst (onOkPressed ext now vm) \<noteq> Resolved (Ok (Some p)))"
proof -
  from validInputs_dispatch [OF assms(2)]
  obtain s t and cal :: CalendarInfo and newEvent :: CalendarEvent where
    "startEndInstants ext vm = Some (s, t)" and "assembleEvent ext now vm s t = Inr newEvent"
    and cal: "selectedCalendar vm = Some cal"
    and run: "onOkPressed ext now vm = dispatch ext vm newEvent (cal_groupRoot cal)"
    by blast
  then have assembled: "\<exists>s t. startEndInstants ext vm = Some (s, t) \<and>
      assembleEvent ext now vm s t = Inr newEvent"
    by blast
  from assms(1) obtain e where e: "existingEvent vm = Some e"
    by (cases "existingEvent vm") (auto simp: viewingOwnEvent_def)
  obtain existing' sent where resp: "ownResponse vm newEvent = (existing', sent)"
    by (cases "ownResponse vm newEvent")
  have "\<exists>e'. existing' = Some e'"
    using resp by (auto simp: ownResponse_def e split: option.splits if_splits)
  then obtain e' where e': "existing' = Some e'" ..
  have sent: "sent =
       (case find (isOwnAddress (mailAddresses vm)) (ev_attendees e) of
          Some a \<Rightarrow>
            if going vm \<noteq> NEEDS_ACTION \<and> status a \<noteq> going vm
            then [SendResponse newEvent \<lparr> ma_name = name (mail_address a), ma_address = addressOf a \<rparr> (going vm)]
            else []
        | None \<Rightarrow> [])"
    using resp by (auto simp: ownResponse_def addressOf_def e split: option.splits if_splits)
  have d: "onOkPressed ext now vm =
     ((case settles ext (UpdateEvent newEvent (alarms vm) (zone vm) (cal_groupRoot cal) e') of
         None \<Rightarrow> Resolved (Ok None) | Some err \<Rightarrow> Rejected err),
      sent @ [UpdateEvent newEvent (alarms vm) (zone vm) (cal_groupRoot cal) e'],
      vm \<lparr> existingEvent := existing' \<rparr>)"
    using run dispatch_guest [OF assms(1) resp, of ext "cal_groupRoot cal"] e'
    by (simp add: doCreateEvent_def)
  have never: "\<forall>p. fst (onOkPressed ext now vm) \<noteq> Resolved (Ok (Some p))"
    unfolding d by (simp split: option.splits)
  show ?thesis
    using e cal d sent never assembled
    by (intro exI [of _ e] exI [of _ cal] exI [of _ newEvent] exI [of _ e']) simp
qed

theorem C6_guest_response_witness:
  "\<not> viewingOwnEvent guestViewModel \<and> validInputs exampleExternals 0 guestViewModel \<and>
   onOkPressed exampleExternals 0 guestViewModel =
     (Resolved (Ok None),
      [SendResponse savedInvitation \<lparr> ma_name = [], ma_address = ''me@t'' \<rparr> ACCEPTED,
       UpdateEvent savedInvitation [] ''Europe/Berlin'' ''root'' answeredInvitation],
      guestViewModel \<lparr> existingEvent := Some answeredInvitation \<rparr>)"
proof -
  have guest: "\<not> viewingOwnEvent guestViewModel"
    by (simp add: guestViewModel_state viewingOwnEvent_def scenario_defs)
  have valid: "validInputs exampleExternals 0 guestViewModel"
    by (simp add: guestViewModel_state validInputs_def startEndInstants_def assembleEvent_def timedEvent_def completeEvent_def
          assembleRepeatRule_def Let_def scenario_defs)
  from C6_guest_response [OF guest valid] guest valid guest_save_run
  show ?thesis by simp
qed

text \<open>
  Claim C8 (the code departs from it). The existing event is meant to stay as it was
  handed in, every edit going to a clone. In the invitation scenario the guest
  accepts and saves: afterwards the existing event itself carries the status
  ACCEPTED on the viewer's attendee, where it carried NEEDS_ACTION before
  (line 529 assigns to the attendee object found on the existing event).
\<close>

theorem C8_existingEvent_mutated:
  "existingEvent guestViewModel = Some invitation \<and>
   existingEvent (snd (snd (onOkPressed exampleExternals 0 guestViewModel))) = Some answeredInvitation \<and>
   map status (ev_attendees invitation) = [NEEDS_ACTION, DECLINED] \<and>
   map status (ev_attendees answeredInvitation) = [ACCEPTED, DECLINED]"
  by (simp add: guest_save_run) (simp add: guestViewModel_state answeredInvitation_def scenario_defs)

section \<open>Deleting an event\<close>

text \<open>
  Claim C7. With an existing event, \<^verbatim>\<open>deleteEvent\<close> sends one cancellation, to the
  addresses of all attendees of the event, before the store delete, exactly when the
  classification is OWN and the event has attendees (the delete follows once the
  cancellation resolved); otherwise it only deletes. A not-found failure of either
  call is swallowed, the promise resolves; any other failure rejects the promise.
\<close>

theorem C7_deleteEvent:
  assumes "existingEvent vm = Some event"
  shows "snd (deleteEvent ext vm) =
       (if eventType vm = OWN \<and> ev_attendees event \<noteq> []
        then SendCancellation event (map mail_address (ev_attendees event)) #
             (if settles ext (SendCancellation event (map mail_address (ev_attendees event))) = None
              then [DeleteEvent event] else [])
        else [DeleteEvent event]) \<and>
     fst (deleteEvent ext vm) =
       (case (if eventType vm = OWN \<and> ev_attendees event \<noteq> [] \<and>
                 settles ext (SendCancellation event (map mail_address (ev_attendees event))) \<noteq> None
              then settles ext (SendCancellation event (map mail_address (ev_attendees event)))
              else settles ext (DeleteEvent event)) of
          None \<Rightarrow> Resolved None
        | Some err \<Rightarrow> if err = NotFoundError then Resolved None else Rejected err)"
  using assms
  by (auto simp: deleteEvent_def andThen_def invoke_def resolved_def Let_def split: option.splits)

theorem C7_deleteEvent_witness:
  "existingEvent ownerViewModel = Some ownedEvent \<and>
   deleteEvent exampleExternals ownerViewModel =
     (Resolved None,
      [SendCancellation ownedEvent [\<lparr> name = [], address = ''old@x'' \<rparr>, \<lparr> name = [], address = ''gone@x'' \<rparr>],
       DeleteEvent ownedEvent]) \<and>
   deleteEvent (exampleExternals \<lparr> settles := (\<lambda>c. Some NotFoundError) \<rparr>) guestViewModel =
     (Resolved None, [DeleteEvent invitation])"
  using C7_deleteEvent [of ownerViewModel ownedEvent exampleExternals]
    C7_deleteEvent [of guestViewModel invitation "exampleExternals \<lparr> settles := (\<lambda>c. Some NotFoundError) \<rparr>"]
  by (simp add: ownerViewModel_state guestViewModel_state prod_eq_iff)
     (simp add: scenario_defs)

section \<open>Validation\<close>

text \<open>
  Claim C9. A save that is not all-day and whose start or end time string does not
  parse resolves with the error \<^verbatim>\<open>timeFormatInvalid_msg\<close> (the invalid time format
  kind); a save whose computed end instant is not after its computed start instant,
  timed or all-day, resolves with the error \<^verbatim>\<open>startAfterEnd_label\<close> (the end before
  start kind). In each case no call is issued on the store or the distributor and
  the view-model is unchanged.
\<close>

theorem C9_validation:
  "(\<not> allDay vm \<and> (parseTime ext (startTime vm) = None \<or> parseTime ext (endTime vm) = None) \<longrightarrow>
      onOkPressed ext now vm = (Resolved (Error ''timeFormatInvalid_msg''), [], vm)) \<and>
   (\<not> allDay vm \<and> parseTime ext (startTime vm) = Some (sh, sm) \<and>
    parseTime ext (endTime vm) = Some (eh, em) \<and>
    \<not> setHourMinute ext (startDate vm) (zone vm) sh sm < setHourMinute ext (endDate vm) (zone vm) eh em \<longrightarrow>
      onOkPressed ext now vm = (Resolved (Error ''startAfterEnd_label''), [], vm)) \<and>
   (allDay vm \<and>
    \<not> getAllDayDateUTCFromZone ext (startDate vm) (zone vm)
        < getAllDayDateUTCFromZone ext (getStartOfNextDayWithZone ext (endDate vm) (zone vm)) (zone vm) \<longrightarrow>
      onOkPressed ext now vm = (Resolved (Error ''startAfterEnd_label''), [], vm))"
  by (auto simp: onOkPressed_def startEndInstants_def split: option.splits prod.splits)

theorem C9_validation_witness:
  "onOkPressed exampleExternals 0 (ownerViewModel \<lparr> startTime := ''noon'' \<rparr>) =
     (Resolved (Error ''timeFormatInvalid_msg''), [], ownerViewModel \<lparr> startTime := ''noon'' \<rparr>) \<and>
   onOkPressed exampleExternals 0 (ownerViewModel \<lparr> endTime := ''12:00'' \<rparr>) =
     (Resolved (Error ''startAfterEnd_label''), [], ownerViewModel \<lparr> endTime := ''12:00'' \<rparr>) \<and>
   onOkPressed exampleExternals 0 (ownerViewModel \<lparr> allDay := True, endDate := - 86400000 \<rparr>) =
     (Resolved (Error ''startAfterEnd_label''), [], ownerViewModel \<lparr> allDay := True, endDate := - 86400000 \<rparr>)"
proof -
  note unparsed = C9_validation [where ext = exampleExternals and now = 0 and
      vm = "ownerViewModel \<lparr> startTime := ''noon'' \<rparr>", THEN conjunct1, rule_format]
  note timed = C9_validation [where ext = exampleExternals and now = 0 and
      vm = "ownerViewModel \<lparr> endTime := ''12:00'' \<rparr>" and sh = 12 and sm = 0 and eh = 12 and em = 0,
      THEN conjunct2, THEN conjunct1, rule_format]
  note allday = C9_validation [where ext = exampleExternals and now = 0 and
      vm = "ownerViewModel \<lparr> allDay := True, endDate := - 86400000 \<rparr>",
      THEN conjunct2, THEN conjunct2, rule_format]
  have "onOkPressed exampleExternals 0 (ownerViewModel \<lparr> startTime := ''noon'' \<rparr>) =
     (Resolved (Error ''timeFormatInvalid_msg''), [], ownerViewModel \<lparr> startTime := ''noon'' \<rparr>)"
    by (rule unparsed) (simp add: ownerViewModel_state exampleExternals_def)
  moreover have "onOkPressed exampleExternals 0 (ownerViewModel \<lparr> endTime := ''12:00'' \<rparr>) =
     (Resolved (Error ''startAfterEnd_label''), [], ownerViewModel \<lparr> endTime := ''12:00'' \<rparr>)"
    by (rule timed) (simp add: ownerViewModel_state exampleExternals_def)
  moreover have "onOkPressed exampleExternals 0 (ownerViewModel \<lparr> allDay := True, endDate := - 86400000 \<rparr>) =
     (Resolved (Error ''startAfterEnd_label''), [], ownerViewModel \<lparr> allDay := True, endDate := - 86400000 \<rparr>)"
    by (rule allday) (simp add: ownerViewModel_state exampleExternals_def)
  ultimately show ?thesis by simp
qed

section \<open>A repeat rule with an invalid count\<close>

lemma assembleRepeatRule_invalid_count:
  assumes "repeat vm = Some r" and "endType r = Count" and "isNaN (endValue r) \<or> lessThan1 (endValue r)"
  shows "assembleRepeatRule ext vm ev =
     Inr (ev \<lparr> ev_repeatRule :=
            Some ((createRepeatRuleWithValues ext (frequency r)
                     (if interval r = NaN \<or> interval r = Num 0 then Num 1 else interval r))
                  \<lparr> rr_endType := Never \<rparr>) \<rparr>)"
  using assms by (simp add: assembleRepeatRule_def Let_def)

lemma assembleRepeatRule_never:
  assumes "repeat vm = Some r" and "endType r = Never"
  shows "assembleRepeatRule ext vm ev =
     Inr (ev \<lparr> ev_repeatRule :=
            Some ((createRepeatRuleWithValues ext (frequency r)
                     (if interval r = NaN \<or> interval r = Num 0 then Num 1 else interval r))
                  \<lparr> rr_endType := Never \<rparr>) \<rparr>)"
  using assms by (simp add: assembleRepeatRule_def Let_def)

lemma timedEvent_repeat: "timedEvent ext now (vm \<lparr> repeat := x \<rparr>) s e = timedEvent ext now vm s e"
  by (simp add: timedEvent_def)

lemma completeEvent_repeat: "completeEvent ext (vm \<lparr> repeat := x \<rparr>) ev = completeEvent ext vm ev"
  by (simp add: completeEvent_def)

lemma completeEvent_repeatRule: "ev_repeatRule (completeEvent ext vm ev) = ev_repeatRule ev"
  by (simp add: completeEvent_def Let_def split: option.splits)

lemma assembleEvent_invalid_count_never:
  assumes "repeat vm = Some r" and "endType r = Count" and "isNaN (endValue r) \<or> lessThan1 (endValue r)"
  shows "assembleEvent ext now vm s e =
         assembleEvent ext now (vm \<lparr> repeat := Some (r \<lparr> endType := Never \<rparr>) \<rparr>) s e"
proof -
  have "assembleRepeatRule ext vm ev =
        assembleRepeatRule ext (vm \<lparr> repeat := Some (r \<lparr> endType := Never \<rparr>) \<rparr>) ev" for ev
    using assembleRepeatRule_invalid_count [OF assms, of ext ev]
      assembleRepeatRule_never [of "vm \<lparr> repeat := Some (r \<lparr> endType := Never \<rparr>) \<rparr>" "r \<lparr> endType := Never \<rparr>" ext ev]
    by simp
  then show ?thesis
    by (simp add: assembleEvent_def timedEvent_repeat completeEvent_repeat cong: sum.case_cong)
qed

lemma assembleEvent_invalid_count:
  assumes "repeat vm = Some r" and "endType r = Count" and "isNaN (endValue r) \<or> lessThan1 (endValue r)"
  shows "\<exists>newEvent rule. assembleEvent ext now vm s e = Inr newEvent \<and>
           ev_repeatRule newEvent = Some rule \<and> rr_endType rule = Never"
  by (simp add: assembleEvent_def assembleRepeatRule_invalid_count [OF assms] completeEvent_repeatRule)

lemma viewingOwnEvent_repeat: "viewingOwnEvent (vm \<lparr> repeat := x \<rparr>) = viewingOwnEvent vm"
  by (simp add: viewingOwnEvent_def cong: option.case_cong)

lemma viewingOwnEvent_existing:
  "viewingOwnEvent (vm \<lparr> existingEvent := ex, repeat := x \<rparr>) = viewingOwnEvent (vm \<lparr> existingEvent := ex \<rparr>)"
  by (simp add: viewingOwnEvent_def cong: option.case_cong)

lemma ownResponse_repeat: "ownResponse (vm \<lparr> repeat := x \<rparr>) ev = ownResponse vm ev"
  by (simp add: ownResponse_def cong: option.case_cong if_cong)

lemma dispatch_with_repeat:
  "fst (dispatch ext (vm \<lparr> repeat := x \<rparr>) ev g) = fst (dispatch ext vm ev g) \<and>
   fst (snd (dispatch ext (vm \<lparr> repeat := x \<rparr>) ev g)) = fst (snd (dispatch ext vm ev g))"
proof (cases "viewingOwnEvent vm")
  case True
  then show ?thesis
    by (cases "attendeeDiff (mailAddresses vm) (existingEvent vm) (attendees vm)")
       (simp add: dispatch_def viewingOwnEvent_repeat viewingOwnEvent_existing split: prod.splits)
next
  case False
  then show ?thesis
    by (cases "ownResponse vm ev")
       (simp add: dispatch_def viewingOwnEvent_repeat viewingOwnEvent_existing ownResponse_repeat
          split: prod.splits)
qed

lemma dispatch_no_error: "fst (dispatch ext vm ev g) \<noteq> Resolved (Error k)"
proof (cases "viewingOwnEvent vm")
  case True
  then show ?thesis
    by (cases "attendeeDiff (mailAddresses vm) (existingEvent vm) (attendees vm)")
       (simp add: dispatch_def andThen_def invoke_def resolved_def split: prod.splits option.splits)
next
  case False
  then show ?thesis
    by (cases "ownResponse vm ev")
       (simp add: dispatch_def andThen_def invoke_def resolved_def split: prod.splits option.splits)
qed

text \<open>
  Whatever branch the decision takes, the assembled event is persisted: by the
  callback of the pending result, or by the one persisting call already issued.
\<close>

lemma dispatch_persists:
  "(\<exists>p. dispatch ext vm ev g = (Resolved (Ok (Some p)), [], vm) \<and>
        ps_newEvent p = ev \<and>
        (\<forall>b. filter isPersist (snd (askForUpdates ext p b)) =
               [doCreateEvent (existingEvent vm) ev (alarms vm) (zone vm) g])) \<or>
   (\<exists>existing'. filter isPersist (fst (snd (dispatch ext vm ev g))) =
        [doCreateEvent existing' ev (alarms vm) (zone vm) g])"
proof (cases "viewingOwnEvent vm")
  case True
  obtain newAttendees retained removed where
    diff: "attendeeDiff (mailAddresses vm) (existingEvent vm) (attendees vm) = (newAttendees, retained, removed)"
    by (cases "attendeeDiff (mailAddresses vm) (existingEvent vm) (attendees vm)")
  show ?thesis
  proof (cases "retained \<noteq> [] \<or> removed \<noteq> []")
    case True
    let ?p = "\<lparr> ps_existingEvent = existingEvent vm, ps_newEvent = ev,
                ps_newAlarms = alarms vm, ps_zone = zone vm, ps_groupRoot = g,
                ps_existingAttendees = retained, ps_newAttendees = newAttendees,
                ps_removedAttendees = removed \<rparr>"
    have res: "dispatch ext vm ev g = (Resolved (Ok (Some ?p)), [], vm)"
      by (rule dispatch_organizer [OF \<open>viewingOwnEvent vm\<close> diff True])
    have persist: "\<forall>b. filter isPersist (snd (askForUpdates ext ?p b)) =
        [doCreateEvent (existingEvent vm) ev (alarms vm) (zone vm) g]"
      unfolding askForUpdates_calls
      by (simp add: isPersist_doCreateEvent isPersist_sends)
    have "\<exists>p. dispatch ext vm ev g = (Resolved (Ok (Some p)), [], vm) \<and>
        ps_newEvent p = ev \<and>
        (\<forall>b. filter isPersist (snd (askForUpdates ext p b)) =
               [doCreateEvent (existingEvent vm) ev (alarms vm) (zone vm) g])"
      by (intro exI [of _ ?p] conjI; (rule res persist | simp))
    then show ?thesis ..
  next
    case False
    have own: "viewingOwnEvent (vm \<lparr> existingEvent := existingEvent vm \<rparr>)"
      using \<open>viewingOwnEvent vm\<close> by simp
    have "filter isPersist (fst (snd (dispatch ext vm ev g))) =
        [doCreateEvent (existingEvent vm) ev (alarms vm) (zone vm) g]"
      using \<open>viewingOwnEvent vm\<close> diff False
      by (cases "settles ext (doCreateEvent (existingEvent vm) ev (alarms vm) (zone vm) g)";
          cases "settles ext (SendInvite ev (distributionAddresses newAttendees))")
         (simp_all add: dispatch_def andThen_def invoke_def resolved_def
            isPersist_doCreateEvent isPersist_sends)
    then show ?thesis by blast
  qed
next
  case False
  obtain existing' sent where resp: "ownResponse vm ev = (existing', sent)"
    by (cases "ownResponse vm ev")
  have sent: "filter isPersist sent = []"
    using resp
    by (auto simp: ownResponse_def isPersist_sends split: option.splits if_splits)
  have "filter isPersist (fst (snd (dispatch ext vm ev g))) =
      [doCreateEvent existing' ev (alarms vm) (zone vm) g]"
    unfolding dispatch_guest [OF False resp]
    by (simp add: sent isPersist_doCreateEvent)
  then show ?thesis by blast
qed

text \<open>
  Claim C10. When the repeat rule ends by count and the count is not a number or is
  less than 1, the count raises no error: the result and the calls of the save are
  those of the same save with the end type never; and when the instants are valid
  and a calendar is selected, the save assembles an event whose repeat rule has the
  end type never, does not return an error result, and goes on with that event as
  any save does: either it resolves with the pending result, no call issued and the
  state unchanged, whose callback persists that event exactly once for either
  answer, or it has itself issued exactly one persisting call, which carries that
  event.
\<close>

theorem C10_invalid_count:
  assumes "repeat vm = Some r" and "endType r = Count" and "isNaN (endValue r) \<or> lessThan1 (endValue r)"
  shows "fst (onOkPressed ext now vm) =
           fst (onOkPressed ext now (vm \<lparr> repeat := Some (r \<lparr> endType := Never \<rparr>) \<rparr>)) \<and>
         fst (snd (onOkPressed ext now vm)) =
           fst (snd (onOkPressed ext now (vm \<lparr> repeat := Some (r \<lparr> endType := Never \<rparr>) \<rparr>))) \<and>
         (\<forall>s e cal. startEndInstants ext vm = Some (s, e) \<and> s < e \<and> selectedCalendar vm = Some cal \<longrightarrow>
            (\<exists>newEvent rule.
               assembleEvent ext now vm s e = Inr newEvent \<and>
               ev_repeatRule newEvent = Some rule \<and> rr_endType rule = Never \<and>
               onOkPressed ext now vm = dispatch ext vm newEvent (cal_groupRoot cal) \<and>
               (\<forall>k. fst (onOkPressed ext now vm) \<noteq> Resolved (Error k)) \<and>
               ((\<exists>p. onOkPressed ext now vm = (Resolved (Ok (Some p)), [], vm) \<and>
                     ps_newEvent p = newEvent \<and>
                     (\<forall>b. filter isPersist (snd (askForUpdates ext p b)) =
                            [doCreateEvent (existingEvent vm) newEvent (alarms vm) (zone vm)
                               (cal_groupRoot cal)])) \<or>
                (\<exists>existing'. filter isPersist (fst (snd (onOkPressed ext now vm))) =
                     [doCreateEvent existing' newEvent (alarms vm) (zone vm) (cal_groupRoot cal)]))))"
proof -
  let ?vm = "vm \<lparr> repeat := Some (r \<lparr> endType := Never \<rparr>) \<rparr>"
  have instants: "startEndInstants ext ?vm = startEndInstants ext vm"
    by (simp add: startEndInstants_def split: option.splits prod.splits)
  have same: "fst (onOkPressed ext now vm) = fst (onOkPressed ext now ?vm) \<and>
              fst (snd (onOkPressed ext now vm)) = fst (snd (onOkPressed ext now ?vm))"
  proof (cases "startEndInstants ext vm")
    case None
    then show ?thesis
      using instants by (simp add: onOkPressed_def)
  next
    case (Some se)
    obtain s e where se: "se = (s, e)" by (cases se)
    show ?thesis
    proof (cases "e \<le> s \<or> selectedCalendar vm = None")
      case True
      then show ?thesis
        using Some se instants by (auto simp: onOkPressed_def)
    next
      case False
      then obtain cal where cal: "selectedCalendar vm = Some cal" and lt: "\<not> e \<le> s"
        by auto
      show ?thesis
      proof (cases "assembleEvent ext now vm s e")
        case (Inl key)
        then show ?thesis
          using Some se instants cal lt assembleEvent_invalid_count_never [OF assms, of ext now s e]
          by (simp add: onOkPressed_def)
      next
        case (Inr newEvent)
        then show ?thesis
          using Some se instants cal lt assembleEvent_invalid_count_never [OF assms, of ext now s e]
            dispatch_with_repeat [where ext = ext and vm = vm and x = "Some (r \<lparr> endType := Never \<rparr>)"
              and ev = newEvent and g = "cal_groupRoot cal"]
          by (simp add: onOkPressed_def)
      qed
    qed
  qed
  have valid: "\<exists>newEvent rule.
       assembleEvent ext now vm s e = Inr newEvent \<and>
       ev_repeatRule newEvent = Some rule \<and> rr_endType rule = Never \<and>
       onOkPressed ext now vm = dispatch ext vm newEvent (cal_groupRoot cal) \<and>
       (\<forall>k. fst (onOkPressed ext now vm) \<noteq> Resolved (Error k)) \<and>
       ((\<exists>p. onOkPressed ext now vm = (Resolved (Ok (Some p)), [], vm) \<and>
             ps_newEvent p = newEvent \<and>
             (\<forall>b. filter isPersist (snd (askForUpdates ext p b)) =
                    [doCreateEvent (existingEvent vm) newEvent (alarms vm) (zone vm)
                       (cal_groupRoot cal)])) \<or>
        (\<exists>existing'. filter isPersist (fst (snd (onOkPressed ext now vm))) =
             [doCreateEvent existing' newEvent (alarms vm) (zone vm) (cal_groupRoot cal)]))"
    if "startEndInstants ext vm = Some (s, e)" and "s < e" and "selectedCalendar vm = Some cal"
    for s e and cal :: CalendarInfo
  proof -
    from assembleEvent_invalid_count [OF assms, of ext now s e]
    obtain newEvent rule where ev: "assembleEvent ext now vm s e = Inr newEvent"
      and rule: "ev_repeatRule newEvent = Some rule" "rr_endType rule = Never"
      by blast
    have run: "onOkPressed ext now vm = dispatch ext vm newEvent (cal_groupRoot cal)"
      using that ev by (simp add: onOkPressed_def)
    have noError: "\<forall>k. fst (onOkPressed ext now vm) \<noteq> Resolved (Error k)"
      unfolding run by (simp add: dispatch_no_error)
    have persisted:
      "(\<exists>p. onOkPressed ext now vm = (Resolved (Ok (Some p)), [], vm) \<and>
             ps_newEvent p = newEvent \<and>
             (\<forall>b. filter isPersist (snd (askForUpdates ext p b)) =
                    [doCreateEvent (existingEvent vm) newEvent (alarms vm) (zone vm)
                       (cal_groupRoot cal)])) \<or>
       (\<exists>existing'. filter isPersist (fst (snd (onOkPressed ext now vm))) =
             [doCreateEvent existing' newEvent (alarms vm) (zone vm) (cal_groupRoot cal)])"
      unfolding run by (rule dispatch_persists)
    from ev rule run noError persisted show ?thesis by blast
  qed
  from same valid show ?thesis by blast
qed

lemma count_fields:
  "repeat countViewModel = Some \<lparr> frequency = WEEKLY, interval = Num 1, endType = Count, endValue = Num 0 \<rparr>"
  "startEndInstants exampleExternals countViewModel = Some (43200000, 46800000)"
  "selectedCalendar countViewModel = Some ownCalendar"
  "existingEvent countViewModel = Some ownedEvent"
  "alarms countViewModel = []" "zone countViewModel = ''Europe/Berlin''"
  by (simp_all add: countViewModel_def ownerViewModel_state startEndInstants_def exampleExternals_def)

lemma count_viewingOwnEvent: "viewingOwnEvent countViewModel"
  by (simp add: countViewModel_def ownerViewModel_state viewingOwnEvent_def scenario_defs)

lemma count_diff:
  "attendeeDiff (mailAddresses countViewModel) (existingEvent countViewModel) (attendees countViewModel) =
     ([], [guest ''old@x'' NEEDS_ACTION, guest ''gone@x'' NEEDS_ACTION], [])"
  by (simp add: countViewModel_def ownerViewModel_state attendeeDiff_def isOwnAddress_def
        sameAddress_def scenario_defs)

theorem C10_invalid_count_witness:
  "repeat countViewModel = Some \<lparr> frequency = WEEKLY, interval = Num 1, endType = Count, endValue = Num 0 \<rparr> \<and>
   lessThan1 (Num 0) \<and>
   startEndInstants exampleExternals countViewModel = Some (43200000, 46800000) \<and>
   selectedCalendar countViewModel = Some ownCalendar \<and>
   fst (onOkPressed exampleExternals 0 countViewModel) =
     fst (onOkPressed exampleExternals 0
            (countViewModel \<lparr> repeat := Some \<lparr> frequency = WEEKLY, interval = Num 1, endType = Never,
                                                 endValue = Num 0 \<rparr> \<rparr>)) \<and>
   (\<exists>p rule.
      onOkPressed exampleExternals 0 countViewModel = (Resolved (Ok (Some p)), [], countViewModel) \<and>
      assembleEvent exampleExternals 0 countViewModel 43200000 46800000 = Inr (ps_newEvent p) \<and>
      ev_repeatRule (ps_newEvent p) = Some rule \<and> rr_endType rule = Never \<and>
      snd (askForUpdates exampleExternals p False) =
        [UpdateEvent (ps_newEvent p) [] ''Europe/Berlin'' ''root'' ownedEvent] \<and>
      filter isPersist (snd (askForUpdates exampleExternals p True)) =
        [UpdateEvent (ps_newEvent p) [] ''Europe/Berlin'' ''root'' ownedEvent])"
proof -
  have count: "endType \<lparr> frequency = WEEKLY, interval = Num 1, endType = Count, endValue = Num 0 \<rparr> = Count"
    by simp
  have invalid: "isNaN (endValue \<lparr> frequency = WEEKLY, interval = Num 1, endType = Count, endValue = Num 0 \<rparr>)
      \<or> lessThan1 (endValue \<lparr> frequency = WEEKLY, interval = Num 1, endType = Count, endValue = Num 0 \<rparr>)"
    by (simp add: lessThan1_def)
  note claim = C10_invalid_count [OF count_fields(1) count invalid, of exampleExternals 0]
  have same: "fst (onOkPressed exampleExternals 0 countViewModel) =
     fst (onOkPressed exampleExternals 0
            (countViewModel \<lparr> repeat := Some \<lparr> frequency = WEEKLY, interval = Num 1, endType = Never,
                                                 endValue = Num 0 \<rparr> \<rparr>))"
    using claim by simp
  have "startEndInstants exampleExternals countViewModel = Some (43200000, 46800000) \<and>
      (43200000 :: int) < 46800000 \<and> selectedCalendar countViewModel = Some ownCalendar"
    by (simp add: count_fields)
  with claim obtain newEvent :: CalendarEvent and rule :: RepeatRule where
    ev: "assembleEvent exampleExternals 0 countViewModel 43200000 46800000 = Inr newEvent"
    and rule: "ev_repeatRule newEvent = Some rule" "rr_endType rule = Never"
    and run: "onOkPressed exampleExternals 0 countViewModel =
        dispatch exampleExternals countViewModel newEvent (cal_groupRoot ownCalendar)"
    by blast
  let ?p = "\<lparr> ps_existingEvent = existingEvent countViewModel, ps_newEvent = newEvent,
              ps_newAlarms = alarms countViewModel, ps_zone = zone countViewModel,
              ps_groupRoot = cal_groupRoot ownCalendar,
              ps_existingAttendees = [guest ''old@x'' NEEDS_ACTION, guest ''gone@x'' NEEDS_ACTION],
              ps_newAttendees = [], ps_removedAttendees = [] \<rparr>"
  have nonempty: "[guest ''old@x'' NEEDS_ACTION, guest ''gone@x'' NEEDS_ACTION] \<noteq> [] \<or>
      ([] :: CalendarEventAttendee list) \<noteq> []"
    by simp
  have res: "onOkPressed exampleExternals 0 countViewModel = (Resolved (Ok (Some ?p)), [], countViewModel)"
    unfolding run by (rule dispatch_organizer [OF count_viewingOwnEvent count_diff nonempty])
  have silent: "snd (askForUpdates exampleExternals ?p False) =
      [UpdateEvent newEvent [] ''Europe/Berlin'' ''root'' ownedEvent]"
    unfolding askForUpdates_calls
    by (simp add: count_fields doCreateEvent_def ownCalendar_def)
  have persist: "filter isPersist (snd (askForUpdates exampleExternals ?p True)) =
      [UpdateEvent newEvent [] ''Europe/Berlin'' ''root'' ownedEvent]"
    unfolding askForUpdates_calls
    by (simp add: count_fields doCreateEvent_def ownCalendar_def isPersist_def)
  have "\<exists>p rule.
      onOkPressed exampleExternals 0 countViewModel = (Resolved (Ok (Some p)), [], countViewModel) \<and>
      assembleEvent exampleExternals 0 countViewModel 43200000 46800000 = Inr (ps_newEvent p) \<and>
      ev_repeatRule (ps_newEvent p) = Some rule \<and> rr_endType rule = Never \<and>
      snd (askForUpdates exampleExternals p False) =
        [UpdateEvent (ps_newEvent p) [] ''Europe/Berlin'' ''root'' ownedEvent] \<and>
      filter isPersist (snd (askForUpdates exampleExternals p True)) =
        [UpdateEvent (ps_newEvent p) [] ''Europe/Berlin'' ''root'' ownedEvent]"
    by (intro exI [of _ ?p] exI [of _ rule] conjI; (rule res | simp add: ev rule silent persist))
  with same show ?thesis
    by (simp add: count_fields lessThan1_def)
qed

end
